theory Spec2Isabelle
  imports Main
begin

section \<open>The connection pool of pymongo/pool.py\<close>

text \<open>
  The theory follows one thread through the methods of \<^verbatim>\<open>SocketInfo\<close> and \<^verbatim>\<open>Pool\<close>.
  Python objects are records, every \<^verbatim>\<open>raise\<close> is a value of type \<open>error\<close>, and
  what a method does to the outside (events published to the listeners, notifications of
  the two condition variables, calls on the raw socket) is appended to a trace, in program
  order. A leading underscore of a source name is written as the suffix \<open>_u\<close>
  (\<^verbatim>\<open>_reset\<close> is \<open>reset_u\<close>). Python integers are \<open>int\<close>; readings of
  \<^verbatim>\<open>time.monotonic()\<close> are \<open>int\<close> ticks of an arbitrary unit, only compared and
  subtracted.
\<close>

subsection \<open>Enumerations, exceptions, effects\<close>

datatype PoolState = PAUSED | READY | CLOSED

text \<open>The reasons of pymongo.monitoring, as the pool names them.\<close>

datatype ConnectionClosedReason = STALE | IDLE | ERROR | POOL_CLOSED

datatype ConnectionCheckOutFailedReason = TIMEOUT | CHECKOUT_POOL_CLOSED | CONN_ERROR

text \<open>
  Exceptions that reach the pool from its collaborators (socket, TLS, wire codec,
  authenticator). \<open>PoolPausedCause\<close> is the \<^verbatim>\<open>AutoReconnect('connection pool paused')\<close>
  instance that \<^verbatim>\<open>_raise_if_not_ready\<close> hands to \<^verbatim>\<open>_raise_connection_failure\<close>.
  \<open>KeyboardInterrupt\<close> stands for the exceptions that are not subclasses of
  \<^verbatim>\<open>Exception\<close>.
\<close>

datatype exc =
    SocketTimeout
  | SSLError string
  | OSError
  | OperationFailure
  | OtherException
  | KeyboardInterrupt
  | PoolPausedCause

datatype error =
    NetworkTimeout exc
  | AutoReconnect exc
  | Propagated exc
  | PoolClosedError
  | ExceededMaxWaiters int
  | WaitQueueTimeout
  | DocumentTooLarge int int

datatype condition = size_cond | max_connecting_cond

datatype effect =
    PoolCreatedEvent
  | PoolReadyEvent
  | PoolClearedEvent
  | PoolClosedEvent
  | ConnectionCreatedEvent int
  | ConnectionReadyEvent int
  | ConnectionClosedEvent int ConnectionClosedReason
  | ConnectionCheckOutStartedEvent
  | ConnectionCheckedOutEvent int
  | ConnectionCheckOutFailedEvent ConnectionCheckOutFailedReason
  | ConnectionCheckedInEvent int
  | Notify condition
  | NotifyAll condition
  | SockClose int
  | SockSendall int string

text \<open>What a call can come to: a value, an exception, or a wait that is never ended.\<close>

datatype 'a outcome = Returned 'a | Raised error | Blocked

subsection \<open>Module-level helpers\<close>

fun is_prefix :: "string \<Rightarrow> string \<Rightarrow> bool" where
  "is_prefix [] ys = True"
| "is_prefix (x # xs) [] = False"
| "is_prefix (x # xs) (y # ys) = (x = y \<and> is_prefix xs ys)"

text \<open>Python's \<^verbatim>\<open>sub in s\<close> on strings.\<close>

fun str_contains :: "string \<Rightarrow> string \<Rightarrow> bool" where
  "str_contains sub [] = is_prefix sub []"
| "str_contains sub (c # cs) = (is_prefix sub (c # cs) \<or> str_contains sub cs)"

text \<open>\<^verbatim>\<open>isinstance(error, (IOError, OSError, _SSLError))\<close>\<close>

fun is_io_error :: "exc \<Rightarrow> bool" where
  "is_io_error SocketTimeout = True"
| "is_io_error (SSLError s) = True"
| "is_io_error OSError = True"
| "is_io_error e = False"

text \<open>\<^verbatim>\<open>isinstance(error, Exception)\<close>\<close>

fun is_Exception :: "exc \<Rightarrow> bool" where
  "is_Exception KeyboardInterrupt = False"
| "is_Exception e = True"

text \<open>
  The module-level \<^verbatim>\<open>_raise_connection_failure(address, error)\<close>: the exception it
  raises (the message, built from the address, is left out).
\<close>

fun raise_connection_failure_u :: "exc \<Rightarrow> error" where
  "raise_connection_failure_u SocketTimeout = NetworkTimeout SocketTimeout"
| "raise_connection_failure_u (SSLError s) =
     (if str_contains ''timed out'' s then NetworkTimeout (SSLError s)
      else AutoReconnect (SSLError s))"
| "raise_connection_failure_u e = AutoReconnect e"

subsection \<open>SocketInfo\<close>

type_synonym cred = nat

text \<open>
  The attributes of \<^verbatim>\<open>SocketInfo\<close> that the modelled methods read or write, under
  the prefix \<open>si_\<close>. \<open>si_cancel_context\<close> is \<open>None\<close> without a cancellation
  context and \<open>Some cancelled\<close> with one. \<open>si_peer_closed\<close> is the state of the raw
  socket as \<^verbatim>\<open>socket_checker.socket_closed(self.sock)\<close> would report it.
\<close>

record SocketInfo =
  si_id :: int
  si_authset :: "cred set"
  si_closed :: bool
  si_last_checkin_time :: int
  si_is_writable :: "bool option"
  si_max_bson_size :: "int option"
  si_enabled_for_cmap :: bool
  si_generation :: int
  si_ready :: bool
  si_cancel_context :: "bool option"
  si_peer_closed :: bool

definition close_socket_u :: "SocketInfo \<Rightarrow> SocketInfo \<times> effect list" where
  "close_socket_u s =
     (if si_closed s then (s, [])
      else (s\<lparr>si_closed := True,
               si_cancel_context := map_option (\<lambda>c. True) (si_cancel_context s)\<rparr>,
            [SockClose (si_id s)]))"

definition close_socket ::
  "ConnectionClosedReason option \<Rightarrow> SocketInfo \<Rightarrow> SocketInfo \<times> effect list" where
  "close_socket reason s =
     (if si_closed s then (s, [])
      else (case close_socket_u s of
              (s', es) \<Rightarrow>
                (s', es @ (if reason \<noteq> None \<and> si_enabled_for_cmap s
                           then [ConnectionClosedEvent (si_id s) (the reason)] else []))))"

definition socket_closed :: "SocketInfo \<Rightarrow> bool" where
  "socket_closed s = si_peer_closed s"

definition update_is_writable :: "bool option \<Rightarrow> SocketInfo \<Rightarrow> SocketInfo" where
  "update_is_writable w s = s\<lparr>si_is_writable := w\<rparr>"

text \<open>The method \<^verbatim>\<open>SocketInfo._raise_connection_failure(error)\<close>.\<close>

definition si_raise_connection_failure_u ::
  "exc \<Rightarrow> SocketInfo \<Rightarrow> SocketInfo \<times> effect list \<times> error" where
  "si_raise_connection_failure_u e s =
     (case close_socket (Some ERROR) s of
        (s', es) \<Rightarrow>
          (s', es, if is_io_error e then raise_connection_failure_u e else Propagated e))"

text \<open>
  \<^verbatim>\<open>send_message(message, max_doc_size)\<close>. \<open>sendall\<close> is what
  \<^verbatim>\<open>self.sock.sendall(message)\<close> does: \<open>None\<close> when it returns, \<open>Some e\<close> when it
  raises \<open>e\<close>.
\<close>

definition send_message ::
  "string \<Rightarrow> int \<Rightarrow> exc option \<Rightarrow> SocketInfo \<Rightarrow> SocketInfo \<times> effect list \<times> error option" where
  "send_message message max_doc_size sendall s =
     (if si_max_bson_size s \<noteq> None \<and> max_doc_size > the (si_max_bson_size s)
      then (s, [], Some (DocumentTooLarge max_doc_size (the (si_max_bson_size s))))
      else (case sendall of
              None \<Rightarrow> (s, [SockSendall (si_id s) message], None)
            | Some e \<Rightarrow>
                (case si_raise_connection_failure_u e s of
                   (s', es, err) \<Rightarrow> (s', SockSendall (si_id s) message # es, Some err))))"

text \<open>
  \<^verbatim>\<open>check_auth(all_credentials)\<close>. \<open>all_credentials\<close> lists the values of the
  dictionary; \<open>auth c\<close> is what \<^verbatim>\<open>auth.authenticate(c, self)\<close> does: \<open>None\<close> when it
  returns, \<open>Some e\<close> when it raises.
\<close>

fun authenticate_all ::
  "(cred \<Rightarrow> error option) \<Rightarrow> cred list \<Rightarrow> SocketInfo \<Rightarrow> SocketInfo \<times> error option" where
  "authenticate_all auth [] s = (s, None)"
| "authenticate_all auth (c # cs) s =
     (if c \<notin> si_authset s then
        (case auth c of
           Some e \<Rightarrow> (s, Some e)
         | None \<Rightarrow> authenticate_all auth cs (s\<lparr>si_authset := insert c (si_authset s)\<rparr>))
      else authenticate_all auth cs s)"

definition check_auth ::
  "(cred \<Rightarrow> error option) \<Rightarrow> cred list \<Rightarrow> SocketInfo \<Rightarrow> SocketInfo \<times> effect list \<times> error option" where
  "check_auth auth all_credentials s =
     (case authenticate_all auth all_credentials s of
        (s1, Some e) \<Rightarrow> (s1, [], Some e)
      | (s1, None) \<Rightarrow>
          (if \<not> si_ready s1
           then (s1\<lparr>si_ready := True\<rparr>,
                 if si_enabled_for_cmap s1 then [ConnectionReadyEvent (si_id s1)] else [],
                 None)
           else (s1, [], None)))"

subsection \<open>Pool\<close>

text \<open>
  The options the pool reads, under the prefix \<open>o_\<close>. \<open>o_event_listeners\<close> is
  \<open>None\<close> without listeners and \<open>Some b\<close> with listeners whose
  \<^verbatim>\<open>enabled_for_cmap\<close> is \<open>b\<close>.
\<close>

record PoolOptions =
  o_max_pool_size :: "int option"
  o_min_pool_size :: int
  o_max_idle_time_seconds :: "int option"
  o_wait_queue_timeout :: "int option"
  o_wait_queue_multiple :: "int option"
  o_event_listeners :: "bool option"
  o_max_connecting :: int
  o_pause_enabled :: bool

text \<open>
  The attributes of \<^verbatim>\<open>Pool\<close>, in the order of \<^verbatim>\<open>__init__\<close>. \<open>None\<close> in
  \<open>max_pool_size\<close> and \<open>max_waiters\<close> is \<^verbatim>\<open>float('inf')\<close>. The deque
  \<open>sockets\<close> is a list whose head is the left end. The last three fields are the
  process around the pool: the trace of effects, the monotonic clock and
  \<^verbatim>\<open>os.getpid()\<close>.
\<close>

record Pool =
  state :: PoolState
  check_interval_seconds :: "int option"
  sockets :: "SocketInfo list"
  active_sockets :: int
  next_connection_id :: int
  is_writable :: "bool option"
  generation :: int
  pid :: int
  opts :: PoolOptions
  handshake :: bool
  enabled_for_cmap :: bool
  requests :: int
  max_pool_size :: "int option"
  waiters :: int
  max_waiters :: "int option"
  max_connecting :: int
  pending :: int
  operation_count :: int
  trace :: "effect list"
  clock :: int
  os_pid :: int

definition emit :: "effect list \<Rightarrow> Pool \<Rightarrow> Pool" where
  "emit es p = p\<lparr>trace := trace p @ es\<rparr>"

text \<open>\<^verbatim>\<open>if self.enabled_for_cmap: listeners.publish_...(...)\<close>\<close>

definition publish :: "effect \<Rightarrow> Pool \<Rightarrow> Pool" where
  "publish e p = (if enabled_for_cmap p then emit [e] p else p)"

text \<open>\<open>n < m\<close> and \<open>n \<ge> m\<close> where \<open>m\<close> may be \<^verbatim>\<open>float('inf')\<close>.\<close>

definition lt_inf :: "int \<Rightarrow> int option \<Rightarrow> bool" where
  "lt_inf n m = (case m of None \<Rightarrow> True | Some k \<Rightarrow> n < k)"

definition Pool_init :: "PoolOptions \<Rightarrow> bool \<Rightarrow> int \<Rightarrow> int \<Rightarrow> Pool" where
  "Pool_init options hs now cur_pid =
     (let cmap = (hs \<and> o_event_listeners options \<noteq> None \<and> the (o_event_listeners options)) in
      \<lparr>state = (if o_pause_enabled options then PAUSED else READY),
       check_interval_seconds = Some 1,
       sockets = [],
       active_sockets = 0,
       next_connection_id = 1,
       is_writable = None,
       generation = 0,
       pid = cur_pid,
       opts = options,
       handshake = hs,
       enabled_for_cmap = cmap,
       requests = 0,
       max_pool_size = o_max_pool_size options,
       waiters = 0,
       max_waiters =
         (if o_wait_queue_multiple options = None \<or> o_max_pool_size options = None then None
          else Some (the (o_max_pool_size options) * the (o_wait_queue_multiple options))),
       max_connecting = o_max_connecting options,
       pending = 0,
       operation_count = 0,
       trace = (if cmap then [PoolCreatedEvent] else []),
       clock = now,
       os_pid = cur_pid\<rparr>)"

definition ready :: "Pool \<Rightarrow> Pool" where
  "ready p =
     (let old_state = state p; p1 = p\<lparr>state := READY\<rparr> in
      if old_state \<noteq> READY then publish PoolReadyEvent p1 else p1)"

definition closed :: "Pool \<Rightarrow> bool" where
  "closed p = (state p = CLOSED)"

text \<open>The effects of \<^verbatim>\<open>for sock_info in sockets: sock_info.close_socket(reason)\<close>.\<close>

fun close_each :: "ConnectionClosedReason \<Rightarrow> SocketInfo list \<Rightarrow> effect list" where
  "close_each reason [] = []"
| "close_each reason (s # ss) = snd (close_socket (Some reason) s) @ close_each reason ss"

definition reset_u :: "bool \<Rightarrow> bool \<Rightarrow> Pool \<Rightarrow> Pool" where
  "reset_u close_flag pause p =
     (let old_state0 = state p in
      if closed p then p
      else
        (let paused = (o_pause_enabled (opts p) \<and> pause);
             old_state = (if paused then state p else old_state0);
             p1 = (if paused then p\<lparr>state := PAUSED\<rparr> else p);
             p2 = p1\<lparr>generation := generation p1 + 1\<rparr>;
             newpid = os_pid p2;
             p3 = (if pid p2 \<noteq> newpid
                   then p2\<lparr>pid := newpid, active_sockets := 0, operation_count := 0\<rparr>
                   else p2);
             socks = sockets p3;
             p4 = p3\<lparr>sockets := []\<rparr>;
             p5 = (if close_flag then p4\<lparr>state := CLOSED\<rparr> else p4);
             p6 = emit [NotifyAll max_connecting_cond, NotifyAll size_cond] p5
         in if close_flag
            then publish PoolClosedEvent (emit (close_each POOL_CLOSED socks) p6)
            else emit (close_each STALE socks)
                   (if old_state \<noteq> PAUSED then publish PoolClearedEvent p6 else p6)))"

definition reset :: "Pool \<Rightarrow> Pool" where
  "reset p = reset_u False True p"

definition reset_without_pause :: "Pool \<Rightarrow> Pool" where
  "reset_without_pause p = reset_u False False p"

definition close :: "Pool \<Rightarrow> Pool" where
  "close p = reset_u True True p"

definition idle_time_seconds :: "SocketInfo \<Rightarrow> Pool \<Rightarrow> int" where
  "idle_time_seconds s p = clock p - si_last_checkin_time s"

definition update_last_checkin_time :: "Pool \<Rightarrow> SocketInfo \<Rightarrow> SocketInfo" where
  "update_last_checkin_time p s = s\<lparr>si_last_checkin_time := clock p\<rparr>"

text \<open>\<^verbatim>\<open>sock_info.close_socket(reason)\<close> called by the pool: the effects go to the trace.\<close>

definition pool_close_socket ::
  "ConnectionClosedReason \<Rightarrow> SocketInfo \<Rightarrow> Pool \<Rightarrow> Pool \<times> SocketInfo" where
  "pool_close_socket reason s p =
     (case close_socket (Some reason) s of (s', es) \<Rightarrow> (emit es p, s'))"

definition perished_u :: "SocketInfo \<Rightarrow> Pool \<Rightarrow> (Pool \<times> SocketInfo) \<times> bool" where
  "perished_u s p =
     (let idle = idle_time_seconds s p;
          generation_check =
            (if si_generation s \<noteq> generation p
             then (pool_close_socket STALE s p, True)
             else ((p, s), False))
      in if o_max_idle_time_seconds (opts p) \<noteq> None
            \<and> idle > the (o_max_idle_time_seconds (opts p))
         then (pool_close_socket IDLE s p, True)
         else if check_interval_seconds p \<noteq> None
                 \<and> (0 = the (check_interval_seconds p)
                      \<or> idle > the (check_interval_seconds p))
         then (if socket_closed s then (pool_close_socket ERROR s p, True)
               else generation_check)
         else generation_check)"

definition return_socket :: "SocketInfo \<Rightarrow> Pool \<Rightarrow> Pool \<times> SocketInfo" where
  "return_socket s p =
     (let p1 = publish (ConnectionCheckedInEvent (si_id s)) p;
          (p2, s2) =
            (if pid p1 \<noteq> os_pid p1 then (reset p1, s)
             else if closed p1 then pool_close_socket POOL_CLOSED s p1
             else if \<not> si_closed s then
               (if si_generation s \<noteq> generation p1 then pool_close_socket STALE s p1
                else (let s' = update_is_writable (is_writable p1)
                                 (update_last_checkin_time p1 s)
                      in (emit [Notify max_connecting_cond]
                            (p1\<lparr>sockets := s' # sockets p1\<rparr>), s')))
             else (p1, s));
          p3 = p2\<lparr>requests := requests p2 - 1,
                   active_sockets := active_sockets p2 - 1,
                   operation_count := operation_count p2 - 1\<rparr>
      in (emit [Notify size_cond] p3, s2))"

subsection \<open>Waiting and connecting: what the environment supplies\<close>

text \<open>
  One awakening from \<^verbatim>\<open>condition.wait(timeout)\<close>: \<open>notified\<close> is what the call
  returns when it has a timeout (\<open>False\<close>: the timeout expired), and
  \<open>interference\<close> is what the other threads and the clock did to the pool while the
  lock was released. A list of them is the sequence of awakenings of one thread on one
  condition variable; when the list is used up the thread is never woken again.
\<close>

record wait =
  notified :: bool
  interference :: "Pool \<Rightarrow> Pool"

text \<open>
  \<^verbatim>\<open>_cond_wait(condition, deadline)\<close>: without a deadline the timeout is
  \<^verbatim>\<open>None\<close>, and \<^verbatim>\<open>wait(None)\<close> returns \<^verbatim>\<open>True\<close>.
\<close>

definition cond_wait_u :: "int option \<Rightarrow> wait \<Rightarrow> bool" where
  "cond_wait_u deadline w =
     (if deadline \<noteq> None \<and> the deadline \<noteq> 0 then notified w else True)"

datatype ismaster_response = IsMasterOk bool int | IsMasterRaises exc

text \<open>
  What the collaborators do during one checkout or one connection attempt:
  the awakenings on the two condition variables, what
  \<^verbatim>\<open>_configured_socket\<close> does (\<open>None\<close>: it returns a socket), what the
  \<^verbatim>\<open>ismaster\<close> command comes to (the server's \<^verbatim>\<open>is_writable\<close> and
  \<^verbatim>\<open>max_bson_size\<close>, or an exception), and the authenticator. \<open>MAX_BSON_SIZE\<close> is
  the constant of pymongo.common, which is not among the sources.
\<close>

record env =
  size_waits :: "wait list"
  connecting_waits :: "wait list"
  dial :: "exc option"
  ismaster_response :: ismaster_response
  auth :: "cred \<Rightarrow> error option"
  MAX_BSON_SIZE :: int

text \<open>\<^verbatim>\<open>isinstance(error, Exception)\<close> for an exception on its way up.\<close>

fun error_is_Exception :: "error \<Rightarrow> bool" where
  "error_is_Exception (Propagated e) = is_Exception e"
| "error_is_Exception e = True"

definition SocketInfo_init :: "int \<Rightarrow> int \<Rightarrow> Pool \<Rightarrow> SocketInfo" where
  "SocketInfo_init mbs conn_id p =
     \<lparr>si_id = conn_id,
      si_authset = {},
      si_closed = False,
      si_last_checkin_time = clock p,
      si_is_writable = Some False,
      si_max_bson_size = Some mbs,
      si_enabled_for_cmap = enabled_for_cmap p,
      si_generation = generation p,
      si_ready = False,
      si_cancel_context = (if \<not> handshake p then Some False else None),
      si_peer_closed = False\<rparr>"

text \<open>
  \<^verbatim>\<open>SocketInfo.ismaster\<close>, through \<^verbatim>\<open>command\<close>: an
  \<^verbatim>\<open>OperationFailure\<close> is raised again as it is, any other exception goes through
  \<^verbatim>\<open>self._raise_connection_failure\<close>.
\<close>

definition ismaster ::
  "ismaster_response \<Rightarrow> SocketInfo \<Rightarrow> SocketInfo \<times> effect list \<times> error option" where
  "ismaster r s =
     (case r of
        IsMasterOk w m \<Rightarrow> (s\<lparr>si_is_writable := Some w, si_max_bson_size := Some m\<rparr>, [], None)
      | IsMasterRaises e \<Rightarrow>
          (if e = OperationFailure then (s, [], Some (Propagated e))
           else (case si_raise_connection_failure_u e s of
                   (s', es, err) \<Rightarrow> (s', es, Some err))))"

definition connect :: "env \<Rightarrow> cred list \<Rightarrow> Pool \<Rightarrow> Pool \<times> (error + SocketInfo)" where
  "connect ev all_credentials p =
     (let conn_id = next_connection_id p;
          p1 = p\<lparr>next_connection_id := next_connection_id p + 1\<rparr>;
          p2 = publish (ConnectionCreatedEvent conn_id) p1
      in case dial ev of
           Some e \<Rightarrow>
             (if is_Exception e
              then (publish (ConnectionClosedEvent conn_id ERROR) p2,
                    Inl (if is_io_error e then raise_connection_failure_u e else Propagated e))
              else (p2, Inl (Propagated e)))
         | None \<Rightarrow>
             (let s0 = SocketInfo_init (MAX_BSON_SIZE ev) conn_id p2 in
              case (if handshake p2 then ismaster (ismaster_response ev) s0 else (s0, [], None)) of
                (s1, es1, Some err) \<Rightarrow> (emit es1 p2, Inl err)
              | (s1, es1, None) \<Rightarrow>
                  (let p3 = (if handshake p2 then p2\<lparr>is_writable := si_is_writable s1\<rparr> else p2)
                   in case check_auth (auth ev) all_credentials s1 of
                        (s2, es2, Some err) \<Rightarrow>
                          (if error_is_Exception err
                           then (fst (pool_close_socket ERROR s2 (emit es2 p3)), Inl err)
                           else (emit es2 p3, Inl err))
                      | (s2, es2, None) \<Rightarrow> (emit es2 p3, Inr s2))))"

subsection \<open>Checkout\<close>

definition raise_if_not_ready_u :: "bool \<Rightarrow> Pool \<Rightarrow> Pool \<times> error option" where
  "raise_if_not_ready_u emit_event p =
     (if state p \<noteq> READY
      then ((if enabled_for_cmap p \<and> emit_event
             then emit [ConnectionCheckOutFailedEvent CONN_ERROR] p else p),
            Some (raise_connection_failure_u PoolPausedCause))
      else (p, None))"

definition raise_wait_queue_timeout_u :: "Pool \<Rightarrow> Pool \<times> error" where
  "raise_wait_queue_timeout_u p =
     (publish (ConnectionCheckOutFailedEvent TIMEOUT) p, WaitQueueTimeout)"

text \<open>
  The loop \<^verbatim>\<open>while not (self.requests < self.max_pool_size)\<close> of
  \<^verbatim>\<open>_get_socket\<close>, over the awakenings on \<^verbatim>\<open>size_cond\<close>.
\<close>

fun size_cond_loop :: "int option \<Rightarrow> wait list \<Rightarrow> Pool \<Rightarrow> Pool \<times> unit outcome" where
  "size_cond_loop deadline [] p =
     (if \<not> lt_inf (requests p) (max_pool_size p) then (p, Blocked) else (p, Returned ()))"
| "size_cond_loop deadline (w # ws) p =
     (if \<not> lt_inf (requests p) (max_pool_size p) then
        (let p1 = interference w p in
         if \<not> cond_wait_u deadline w then
           (let p2 = (if lt_inf (requests p1) (max_pool_size p1)
                      then emit [Notify size_cond] p1 else p1)
            in (fst (raise_wait_queue_timeout_u p2), Raised (snd (raise_wait_queue_timeout_u p2))))
         else (case raise_if_not_ready_u True p1 of
                 (p2, Some e) \<Rightarrow> (p2, Raised e)
               | (p2, None) \<Rightarrow> size_cond_loop deadline ws p2))
      else (p, Returned ()))"

text \<open>
  The block \<^verbatim>\<open>with self.size_cond:\<close> of \<^verbatim>\<open>_get_socket\<close>, the first portion of
  the wait queue. The \<^verbatim>\<open>finally\<close> clause runs when the loop ends or raises.
\<close>

definition size_cond_block :: "int option \<Rightarrow> wait list \<Rightarrow> Pool \<Rightarrow> Pool \<times> unit outcome" where
  "size_cond_block deadline ws p =
     (case raise_if_not_ready_u True p of
        (p1, Some e) \<Rightarrow> (p1, Raised e)
      | (p1, None) \<Rightarrow>
          (if \<not> lt_inf (waiters p1) (max_waiters p1)
           then (p1, Raised (ExceededMaxWaiters (waiters p1)))
           else (case size_cond_loop deadline ws (p1\<lparr>waiters := waiters p1 + 1\<rparr>) of
                   (p2, Blocked) \<Rightarrow> (p2, Blocked)
                 | (p2, Raised e) \<Rightarrow> (p2\<lparr>waiters := waiters p2 - 1\<rparr>, Raised e)
                 | (p2, Returned u) \<Rightarrow>
                     (let p3 = p2\<lparr>waiters := waiters p2 - 1\<rparr>
                      in (p3\<lparr>requests := requests p3 + 1\<rparr>, Returned ())))))"

text \<open>
  The loop \<^verbatim>\<open>while not (self.sockets or self._pending < self._max_connecting)\<close>,
  over the awakenings on \<^verbatim>\<open>_max_connecting_cond\<close>. It returns the awakenings left
  over, and the last component is the local flag \<^verbatim>\<open>emitted_event\<close>.
\<close>

fun max_connecting_cond_loop ::
  "int option \<Rightarrow> wait list \<Rightarrow> Pool \<Rightarrow> (Pool \<times> wait list) \<times> unit outcome \<times> bool" where
  "max_connecting_cond_loop deadline [] p =
     (if \<not> (sockets p \<noteq> [] \<or> pending p < max_connecting p)
      then ((p, []), Blocked, False) else ((p, []), Returned (), False))"
| "max_connecting_cond_loop deadline (w # ws) p =
     (if \<not> (sockets p \<noteq> [] \<or> pending p < max_connecting p) then
        (let p1 = interference w p in
         if \<not> cond_wait_u deadline w then
           (let p2 = (if sockets p1 \<noteq> [] \<or> pending p1 < max_connecting p1
                      then emit [Notify max_connecting_cond] p1 else p1)
            in ((fst (raise_wait_queue_timeout_u p2), ws),
                Raised (snd (raise_wait_queue_timeout_u p2)), True))
         else (case raise_if_not_ready_u False p1 of
                 (p2, Some e) \<Rightarrow> ((p2, ws), Raised e, False)
               | (p2, None) \<Rightarrow> max_connecting_cond_loop deadline ws p2))
      else ((p, w # ws), Returned (), False))"

lemma sockets_emit [simp]: "sockets (emit es p) = sockets p"
  by (simp add: emit_def)

lemma sockets_publish [simp]: "sockets (publish e p) = sockets p"
  by (simp add: publish_def)

lemma raise_if_not_ready_u_False: "raise_if_not_ready_u False p = (p1, r) \<Longrightarrow> p1 = p"
  by (auto simp: raise_if_not_ready_u_def split: if_splits)

lemma sockets_pool_close_socket [simp]:
  "sockets (fst (pool_close_socket reason s p)) = sockets p"
  by (simp add: pool_close_socket_def split: prod.splits)

lemma sockets_perished_u: "perished_u s q = ((p3, s'), b) \<Longrightarrow> sockets p3 = sockets q"
  by (auto simp: perished_u_def Let_def pool_close_socket_def
           split: if_splits prod.splits)

lemma max_connecting_cond_loop_waits:
  "max_connecting_cond_loop d ws p = ((p2, ws'), Returned u, ev)
   \<Longrightarrow> (ws' = ws \<and> p2 = p) \<or> length ws' < length ws"
proof (induction ws arbitrary: p)
  case Nil
  then show ?case by (simp split: if_splits)
next
  case (Cons w ws)
  show ?case
  proof (cases "sockets p \<noteq> [] \<or> pending p < max_connecting p")
    case True
    with Cons.prems show ?thesis by auto
  next
    case False
    with Cons.prems obtain q where
      "max_connecting_cond_loop d ws q = ((p2, ws'), Returned u, ev)"
      by (auto simp: Let_def split: if_splits prod.splits option.splits)
    from Cons.IH [OF this] show ?thesis by auto
  qed
qed

text \<open>
  The loop \<^verbatim>\<open>while sock_info is None\<close> of \<^verbatim>\<open>_get_socket\<close>: wait for a
  pooled socket or for a place among the connecting threads, then take the socket at the
  left end (and start over when it has perished) or connect. The last component is
  \<^verbatim>\<open>emitted_event\<close>.
\<close>

function get_socket_loop ::
  "int option \<Rightarrow> wait list \<Rightarrow> env \<Rightarrow> cred list \<Rightarrow> Pool \<Rightarrow> Pool \<times> SocketInfo outcome \<times> bool" where
  "get_socket_loop deadline ws ev all_credentials p =
     (case raise_if_not_ready_u False p of
        (p1, Some e) \<Rightarrow> (p1, Raised e, False)
      | (p1, None) \<Rightarrow>
          (case max_connecting_cond_loop deadline ws p1 of
             ((p2, ws'), Blocked, emitted) \<Rightarrow> (p2, Blocked, emitted)
           | ((p2, ws'), Raised e, emitted) \<Rightarrow> (p2, Raised e, emitted)
           | ((p2, ws'), Returned u, emitted) \<Rightarrow>
               (case sockets p2 of
                  s # rest \<Rightarrow>
                    (case perished_u s (p2\<lparr>sockets := rest\<rparr>) of
                       ((p3, s'), True) \<Rightarrow> get_socket_loop deadline ws' ev all_credentials p3
                     | ((p3, s'), False) \<Rightarrow> (p3, Returned s', emitted))
                | [] \<Rightarrow>
                    (case connect ev all_credentials (p2\<lparr>pending := pending p2 + 1\<rparr>) of
                       (p3, r) \<Rightarrow>
                         (emit [Notify max_connecting_cond] (p3\<lparr>pending := pending p3 - 1\<rparr>),
                          (case r of Inl e \<Rightarrow> Raised e | Inr s \<Rightarrow> Returned s),
                          emitted)))))"
  by pat_completeness auto
termination
proof (relation "measures [\<lambda>(d, ws, ev, cs, p). length ws, \<lambda>(d, ws, ev, cs, p). length (sockets p)]",
       goal_cases)
  case 1
  show ?case by simp
next
  case (2 deadline ws ev all_credentials p x1 x2 x1a x2a x1b x2b x1c x2c u s rest x1d x2d x1e x2e)
  have e1: "raise_if_not_ready_u False p = (x1, None)"
    using 2 by metis
  have e2: "max_connecting_cond_loop deadline ws x1 = ((x1b, x2b), Returned u, x2c)"
    using 2 by metis
  have e3: "perished_u s (x1b\<lparr>sockets := rest\<rparr>) = ((x1e, x2e), True)"
    using 2 by metis
  from raise_if_not_ready_u_False [OF e1] have a: "x1 = p" .
  from max_connecting_cond_loop_waits [OF e2]
  have b: "(x2b = ws \<and> x1b = x1) \<or> length x2b < length ws" .
  from sockets_perished_u [OF e3] have c: "sockets x1e = rest" by simp
  from 2 have d: "sockets x1b = s # rest" by metis
  from a b c d show ?case by auto
qed

text \<open>
  The handler \<^verbatim>\<open>except Exception:\<close> of \<^verbatim>\<open>_get_socket\<close>, before it raises
  again. \<open>sock_info\<close>, \<open>incremented\<close> and \<open>emitted_event\<close> are the locals of the
  same names.
\<close>

definition get_socket_except :: "SocketInfo option \<Rightarrow> bool \<Rightarrow> bool \<Rightarrow> Pool \<Rightarrow> Pool" where
  "get_socket_except sock_info incremented emitted_event p =
     (let p1 = (case sock_info of
                  Some s \<Rightarrow> fst (pool_close_socket ERROR s p)
                | None \<Rightarrow> p);
          p2 = p1\<lparr>requests := requests p1 - 1\<rparr>;
          p3 = (if incremented then p2\<lparr>active_sockets := active_sockets p2 - 1\<rparr> else p2);
          p4 = emit [Notify size_cond] p3
      in if enabled_for_cmap p4 \<and> \<not> emitted_event
         then emit [ConnectionCheckOutFailedEvent CONN_ERROR] p4 else p4)"

definition get_socket_u :: "env \<Rightarrow> cred list \<Rightarrow> Pool \<Rightarrow> Pool \<times> SocketInfo outcome" where
  "get_socket_u ev all_credentials p =
     (let p0 = (if pid p \<noteq> os_pid p then reset p else p) in
      if closed p0
      then (publish (ConnectionCheckOutFailedEvent CHECKOUT_POOL_CLOSED) p0, Raised PoolClosedError)
      else
        (let p1 = p0\<lparr>operation_count := operation_count p0 + 1\<rparr>;
             deadline =
               (if o_wait_queue_timeout (opts p1) \<noteq> None \<and> the (o_wait_queue_timeout (opts p1)) \<noteq> 0
                then Some (clock p1 + the (o_wait_queue_timeout (opts p1))) else None)
         in case size_cond_block deadline (size_waits ev) p1 of
              (p2, Blocked) \<Rightarrow> (p2, Blocked)
            | (p2, Raised e) \<Rightarrow> (p2, Raised e)
            | (p2, Returned u) \<Rightarrow>
                (let p3 = p2\<lparr>active_sockets := active_sockets p2 + 1\<rparr> in
                 case get_socket_loop deadline (connecting_waits ev) ev all_credentials p3 of
                   (p4, Blocked, emitted_event) \<Rightarrow> (p4, Blocked)
                 | (p4, Raised e, emitted_event) \<Rightarrow>
                     ((if error_is_Exception e
                       then get_socket_except None True emitted_event p4 else p4),
                      Raised e)
                 | (p4, Returned s, emitted_event) \<Rightarrow>
                     (case check_auth (auth ev) all_credentials s of
                        (s', es, Some e) \<Rightarrow>
                          ((if error_is_Exception e
                            then get_socket_except (Some s') True emitted_event (emit es p4)
                            else emit es p4),
                           Raised e)
                      | (s', es, None) \<Rightarrow> (emit es p4, Returned s')))))"

text \<open>
  \<^verbatim>\<open>get_socket\<close> up to the \<^verbatim>\<open>yield\<close>: the two events around
  \<^verbatim>\<open>_get_socket\<close>.
\<close>

definition get_socket :: "env \<Rightarrow> cred list \<Rightarrow> Pool \<Rightarrow> Pool \<times> SocketInfo outcome" where
  "get_socket ev all_credentials p =
     (case get_socket_u ev all_credentials (publish ConnectionCheckOutStartedEvent p) of
        (p1, Returned s) \<Rightarrow> (publish (ConnectionCheckedOutEvent (si_id s)) p1, Returned s)
      | (p1, r) \<Rightarrow> (p1, r))"

subsection \<open>Maintenance\<close>

text \<open>
  The loop of \<^verbatim>\<open>remove_stale_sockets\<close> that pops idle sockets from the right end.
\<close>

function prune_idle :: "Pool \<Rightarrow> Pool" where
  "prune_idle p =
     (if sockets p \<noteq> []
         \<and> idle_time_seconds (last (sockets p)) p > the (o_max_idle_time_seconds (opts p))
      then prune_idle (fst (pool_close_socket IDLE (last (sockets p))
                              (p\<lparr>sockets := butlast (sockets p)\<rparr>)))
      else p)"
  by pat_completeness auto
termination
  by (relation "measure (\<lambda>p. length (sockets p))") auto

text \<open>
  The first block of the loop \<^verbatim>\<open>while True\<close> of \<^verbatim>\<open>remove_stale_sockets\<close>,
  under \<^verbatim>\<open>size_cond\<close>: \<open>False\<close> when the method returns there.
\<close>

definition maintain_admit :: "Pool \<Rightarrow> Pool \<times> bool" where
  "maintain_admit p =
     (if int (length (sockets p)) + active_sockets p \<ge> o_min_pool_size (opts p) then (p, False)
      else if requests p \<ge> o_min_pool_size (opts p) then (p, False)
      else (p\<lparr>requests := requests p + 1\<rparr>, True))"

text \<open>The \<^verbatim>\<open>finally\<close> clause of that loop.\<close>

definition maintain_finally :: "bool \<Rightarrow> Pool \<Rightarrow> Pool" where
  "maintain_finally incremented p =
     (let p1 = (if incremented
                then emit [Notify max_connecting_cond] (p\<lparr>pending := pending p - 1\<rparr>)
                else p)
      in emit [Notify size_cond] (p1\<lparr>requests := requests p1 - 1\<rparr>))"

text \<open>
  The \<^verbatim>\<open>try\<close> statement of that loop: \<open>None\<close> when the loop goes on, \<open>Some r\<close>
  when the method ends there (\<open>Inr ()\<close> by \<^verbatim>\<open>return\<close>, \<open>Inl e\<close> by an
  exception of \<^verbatim>\<open>connect\<close>).
\<close>

definition maintain_try ::
  "int \<Rightarrow> env \<Rightarrow> cred list \<Rightarrow> Pool \<Rightarrow> Pool \<times> (error + unit) option" where
  "maintain_try reference_generation ev all_credentials p =
     (if pending p \<ge> max_connecting p then (maintain_finally False p, Some (Inr ()))
      else (case connect ev all_credentials (p\<lparr>pending := pending p + 1\<rparr>) of
              (p1, Inl e) \<Rightarrow> (maintain_finally True p1, Some (Inl e))
            | (p1, Inr s) \<Rightarrow>
                (if generation p1 \<noteq> reference_generation
                 then (maintain_finally True (fst (pool_close_socket STALE s p1)), Some (Inr ()))
                 else (maintain_finally True (p1\<lparr>sockets := s # sockets p1\<rparr>), None))))"

text \<open>
  \<open>frame p q\<close>: the pool \<open>q\<close> agrees with \<open>p\<close> on everything but the next
  connection id, the \<^verbatim>\<open>is_writable\<close> flag and the trace. Connecting changes nothing
  else.
\<close>

definition frame :: "Pool \<Rightarrow> Pool \<Rightarrow> bool" where
  "frame p q =
     (state q = state p \<and> check_interval_seconds q = check_interval_seconds p
      \<and> sockets q = sockets p \<and> active_sockets q = active_sockets p
      \<and> generation q = generation p \<and> pid q = pid p \<and> opts q = opts p
      \<and> handshake q = handshake p \<and> enabled_for_cmap q = enabled_for_cmap p
      \<and> requests q = requests p \<and> max_pool_size q = max_pool_size p
      \<and> waiters q = waiters p \<and> max_waiters q = max_waiters p
      \<and> max_connecting q = max_connecting p \<and> pending q = pending p
      \<and> operation_count q = operation_count p \<and> clock q = clock p \<and> os_pid q = os_pid p)"

lemma frame_refl: "frame p p"
  by (simp add: frame_def)

lemma frame_emit: "frame p q \<Longrightarrow> frame p (emit es q)"
  by (simp add: frame_def emit_def)

lemma frame_publish: "frame p q \<Longrightarrow> frame p (publish e q)"
  by (simp add: publish_def frame_emit)

lemma frame_close: "frame p q \<Longrightarrow> frame p (fst (pool_close_socket r s q))"
  by (simp add: pool_close_socket_def frame_emit split: prod.split)

lemma frame_next_connection_id: "frame p q \<Longrightarrow> frame p (q\<lparr>next_connection_id := n\<rparr>)"
  by (simp add: frame_def)

lemma frame_is_writable: "frame p q \<Longrightarrow> frame p (q\<lparr>is_writable := w\<rparr>)"
  by (simp add: frame_def)

lemmas frame_intros =
  frame_refl frame_emit frame_publish frame_close frame_next_connection_id frame_is_writable

lemma frame_connect: "frame p (fst (connect ev cs p))"
  unfolding connect_def Let_def
  by (simp add: frame_intros split: option.split prod.split)
lemma maintain_admit_True:
  "maintain_admit p = (p1, True) \<Longrightarrow>
   p1 = p\<lparr>requests := requests p + 1\<rparr>
   \<and> int (length (sockets p)) + active_sockets p < o_min_pool_size (opts p)
   \<and> requests p < o_min_pool_size (opts p)"
  by (auto simp: maintain_admit_def split: if_splits)

lemma frame_maintain_finally:
  "sockets (maintain_finally b p) = sockets p
   \<and> active_sockets (maintain_finally b p) = active_sockets p
   \<and> opts (maintain_finally b p) = opts p"
  by (simp add: maintain_finally_def emit_def Let_def)

lemma maintain_try_goes_on:
  assumes "maintain_try g ev cs p = (p2, None)"
  shows "length (sockets p2) = Suc (length (sockets p))
         \<and> active_sockets p2 = active_sockets p \<and> opts p2 = opts p"
proof -
  let ?q = "p\<lparr>pending := pending p + 1\<rparr>"
  have f: "frame ?q (fst (connect ev cs ?q))" by (rule frame_connect)
  obtain p1 r where c: "connect ev cs ?q = (p1, r)" by (cases "connect ev cs ?q")
  with f have f1: "sockets p1 = sockets p" "active_sockets p1 = active_sockets p"
    "opts p1 = opts p"
    by (simp_all add: frame_def)
  from assms c obtain s where
    "p2 = maintain_finally True (p1\<lparr>sockets := s # sockets p1\<rparr>)"
    by (auto simp: maintain_try_def split: if_splits sum.splits)
  with f1 show ?thesis by (simp add: frame_maintain_finally)
qed

text \<open>
  The loop \<^verbatim>\<open>while True\<close> of \<^verbatim>\<open>remove_stale_sockets\<close>. \<open>envs n\<close> is what
  the collaborators do while the connection with id \<open>n\<close> is made.
\<close>

function maintain_loop ::
  "int \<Rightarrow> (int \<Rightarrow> env) \<Rightarrow> cred list \<Rightarrow> Pool \<Rightarrow> Pool \<times> (error + unit)" where
  "maintain_loop reference_generation envs all_credentials p =
     (case maintain_admit p of
        (p1, False) \<Rightarrow> (p1, Inr ())
      | (p1, True) \<Rightarrow>
          (case maintain_try reference_generation (envs (next_connection_id p1))
                  all_credentials p1 of
             (p2, Some r) \<Rightarrow> (p2, r)
           | (p2, None) \<Rightarrow> maintain_loop reference_generation envs all_credentials p2))"
  by pat_completeness auto
termination
proof (relation "measure (\<lambda>(g, envs, cs, p).
          nat (o_min_pool_size (opts p) - (int (length (sockets p)) + active_sockets p)))",
       goal_cases)
  case 1
  show ?case by simp
next
  case (2 g envs cs p x1 x2 x1a x2a)
  have a: "maintain_admit p = (x1, True)" using 2 by metis
  have t: "maintain_try g (envs (next_connection_id x1)) cs x1 = (x1a, None)"
    using 2 by metis
  from maintain_admit_True [OF a] maintain_try_goes_on [OF t]
  show ?case by simp
qed

declare maintain_loop.simps [simp del]

definition remove_stale_sockets ::
  "int \<Rightarrow> (int \<Rightarrow> env) \<Rightarrow> cred list \<Rightarrow> Pool \<Rightarrow> Pool \<times> (error + unit)" where
  "remove_stale_sockets reference_generation envs all_credentials p =
     (if state p \<noteq> READY then (p, Inr ())
      else maintain_loop reference_generation envs all_credentials
             (if o_max_idle_time_seconds (opts p) \<noteq> None then prune_idle p else p))"

section \<open>Concrete pools and sockets\<close>

text \<open>
  A pool with listeners, \<^verbatim>\<open>maxPoolSize=1\<close>, \<^verbatim>\<open>maxConnecting=2\<close>, a wait queue
  timeout and no idle limit, created at time 0 in process 7; the same pool after
  \<^verbatim>\<open>ready()\<close>; and an open socket of generation 0 with id 1, checked in at time 0.
\<close>

definition example_options :: PoolOptions where
  "example_options =
     \<lparr>o_max_pool_size = Some 1, o_min_pool_size = 0, o_max_idle_time_seconds = None,
      o_wait_queue_timeout = Some 5, o_wait_queue_multiple = None,
      o_event_listeners = Some True, o_max_connecting = 2, o_pause_enabled = True\<rparr>"

definition paused_pool :: Pool where
  "paused_pool = Pool_init example_options True 0 7"

definition ready_pool :: Pool where
  "ready_pool = (ready paused_pool)\<lparr>trace := []\<rparr>"

definition example_sock :: SocketInfo where
  "example_sock = SocketInfo_init 16777216 1 ready_pool"

lemmas example_defs =
  example_options_def paused_pool_def ready_pool_def example_sock_def Pool_init_def
  SocketInfo_init_def ready_def publish_def emit_def

section \<open>The state machine\<close>

text \<open>
  C9, amended. \<^verbatim>\<open>ready()\<close> is idempotent: the state afterwards is READY;
  \<open>PoolReadyEvent\<close> is published exactly when the state before was not READY and the
  pool publishes CMAP events (\<^verbatim>\<open>enabled_for_cmap\<close>), so a second call publishes
  nothing; and calling it twice is calling it once. (On a pool that publishes no events,
  shown further down, a PAUSED pool becomes READY without the event.)
\<close>

theorem ready_idempotent:
  "state (ready p) = READY
   \<and> trace (ready p)
       = trace p @ (if state p \<noteq> READY \<and> enabled_for_cmap p then [PoolReadyEvent] else [])
   \<and> trace (ready (ready p)) = trace (ready p)
   \<and> ready (ready p) = ready p"
  by (simp add: ready_def publish_def emit_def Let_def)

theorem ready_idempotent_witness:
  "state paused_pool = PAUSED
   \<and> state (ready paused_pool) = READY
   \<and> trace (ready paused_pool) = [PoolCreatedEvent, PoolReadyEvent]
   \<and> trace (ready (ready paused_pool)) = [PoolCreatedEvent, PoolReadyEvent]"
  using ready_idempotent [of paused_pool]
  by (simp add: paused_pool_def example_options_def Pool_init_def)

section \<open>Perishability\<close>

text \<open>
  The three tests of \<^verbatim>\<open>_perished\<close>, named: the socket has been idle for longer than
  \<^verbatim>\<open>max_idle_time_seconds\<close>; the liveness probe is due (the check interval is 0
  or has elapsed since the last checkin); and what closing an open socket with a reason
  adds to the trace.
\<close>

definition idle_expired :: "SocketInfo \<Rightarrow> Pool \<Rightarrow> bool" where
  "idle_expired s p =
     (case o_max_idle_time_seconds (opts p) of
        None \<Rightarrow> False
      | Some m \<Rightarrow> idle_time_seconds s p > m)"

definition probe_due :: "SocketInfo \<Rightarrow> Pool \<Rightarrow> bool" where
  "probe_due s p =
     (case check_interval_seconds p of
        None \<Rightarrow> False
      | Some c \<Rightarrow> c = 0 \<or> idle_time_seconds s p > c)"

definition closing :: "ConnectionClosedReason \<Rightarrow> SocketInfo \<Rightarrow> effect list" where
  "closing reason s =
     SockClose (si_id s)
     # (if si_enabled_for_cmap s then [ConnectionClosedEvent (si_id s) reason] else [])"

lemma close_socket_open:
  "\<not> si_closed s \<Longrightarrow>
   close_socket (Some reason) s =
     (s\<lparr>si_closed := True,
        si_cancel_context := map_option (\<lambda>c. True) (si_cancel_context s)\<rparr>,
      closing reason s)"
  by (simp add: close_socket_def close_socket_u_def closing_def)

lemma pool_close_socket_open:
  "\<not> si_closed s \<Longrightarrow>
   pool_close_socket reason s p =
     (p\<lparr>trace := trace p @ closing reason s\<rparr>,
      s\<lparr>si_closed := True,
        si_cancel_context := map_option (\<lambda>c. True) (si_cancel_context s)\<rparr>)"
  by (simp add: pool_close_socket_def close_socket_open emit_def)

text \<open>
  A socket of generation 0 whose peer has closed the connection, checked in at time 0,
  met at time 10 by a pool that has been reset to generation 1 and made ready again.
\<close>

definition dead_sock :: SocketInfo where
  "dead_sock = example_sock\<lparr>si_peer_closed := True\<rparr>"

definition later_pool :: Pool where
  "later_pool = ready_pool\<lparr>generation := 1, clock := 10\<rparr>"

text \<open>
  C1, as stated, fails: the claim has the generation test before the liveness probe, so a
  stale socket would be closed with reason STALE. The stale socket \<open>dead_sock\<close>, whose
  peer is gone, is closed with reason ERROR: the probe comes first.
\<close>

theorem perished_stale_dead_counterexample:
  "si_generation dead_sock \<noteq> generation later_pool
   \<and> \<not> idle_expired dead_sock later_pool
   \<and> trace (fst (fst (perished_u dead_sock later_pool)))
       = [SockClose 1, ConnectionClosedEvent 1 ERROR]
   \<and> trace (fst (fst (perished_u dead_sock later_pool)))
       \<noteq> [SockClose 1, ConnectionClosedEvent 1 STALE]"
  by (simp add: dead_sock_def later_pool_def example_defs perished_u_def idle_expired_def
        idle_time_seconds_def socket_closed_def pool_close_socket_def close_socket_def
        close_socket_u_def Let_def)

text \<open>
  C1, amended. \<^verbatim>\<open>_perished\<close> applies its tests to an open socket in the order: idle
  time first (close reason IDLE), liveness probe second, when it is due (close reason
  ERROR), generation last (close reason STALE); when none applies the socket and the pool
  are left as they are.
\<close>

theorem perished_u_order:
  assumes "\<not> si_closed s"
  shows "perished_u s p =
     (if idle_expired s p then (pool_close_socket IDLE s p, True)
      else if probe_due s p \<and> socket_closed s then (pool_close_socket ERROR s p, True)
      else if si_generation s \<noteq> generation p then (pool_close_socket STALE s p, True)
      else ((p, s), False))
    \<and> (idle_expired s p \<longrightarrow>
           trace (fst (fst (perished_u s p))) = trace p @ closing IDLE s)
    \<and> (\<not> idle_expired s p \<and> probe_due s p \<and> socket_closed s \<longrightarrow>
           trace (fst (fst (perished_u s p))) = trace p @ closing ERROR s)
    \<and> (\<not> idle_expired s p \<and> \<not> (probe_due s p \<and> socket_closed s)
         \<and> si_generation s \<noteq> generation p \<longrightarrow>
           trace (fst (fst (perished_u s p))) = trace p @ closing STALE s)"
proof -
  have first: "perished_u s p =
     (if idle_expired s p then (pool_close_socket IDLE s p, True)
      else if probe_due s p \<and> socket_closed s then (pool_close_socket ERROR s p, True)
      else if si_generation s \<noteq> generation p then (pool_close_socket STALE s p, True)
      else ((p, s), False))"
    by (auto simp: perished_u_def idle_expired_def probe_due_def Let_def
             split: option.splits)
  have idle: "idle_expired s p \<Longrightarrow>
           trace (fst (fst (perished_u s p))) = trace p @ closing IDLE s"
    using assms by (simp add: first pool_close_socket_open)
  have probe: "\<not> idle_expired s p \<Longrightarrow> probe_due s p \<Longrightarrow> socket_closed s \<Longrightarrow>
           trace (fst (fst (perished_u s p))) = trace p @ closing ERROR s"
    using assms by (simp add: first pool_close_socket_open)
  have gen: "\<not> idle_expired s p \<Longrightarrow> \<not> (probe_due s p \<and> socket_closed s) \<Longrightarrow>
         si_generation s \<noteq> generation p \<Longrightarrow>
           trace (fst (fst (perished_u s p))) = trace p @ closing STALE s"
    using assms by (auto simp: first pool_close_socket_open)
  from first idle probe gen show ?thesis by blast
qed

theorem perished_u_order_witness:
  "\<not> si_closed dead_sock
   \<and> \<not> idle_expired dead_sock later_pool
   \<and> probe_due dead_sock later_pool \<and> socket_closed dead_sock
   \<and> si_generation dead_sock \<noteq> generation later_pool
   \<and> perished_u dead_sock later_pool = (pool_close_socket ERROR dead_sock later_pool, True)
   \<and> trace (fst (fst (perished_u dead_sock later_pool)))
       = trace later_pool @ closing ERROR dead_sock"
proof -
  have a: "\<not> si_closed dead_sock"
    by (simp add: dead_sock_def example_defs)
  have b: "\<not> idle_expired dead_sock later_pool"
    by (simp add: idle_expired_def later_pool_def example_defs)
  have c: "probe_due dead_sock later_pool"
    by (simp add: probe_due_def idle_time_seconds_def dead_sock_def later_pool_def example_defs)
  have d: "socket_closed dead_sock"
    by (simp add: socket_closed_def dead_sock_def)
  have e: "si_generation dead_sock \<noteq> generation later_pool"
    by (simp add: dead_sock_def later_pool_def example_defs)
  from perished_u_order [OF a, of later_pool] a b c d e show ?thesis
    by (simp add: pool_close_socket_open)
qed

section \<open>Sending\<close>

text \<open>
  C10. On an open connection, a message whose largest document exceeds the handshaked
  \<^verbatim>\<open>max_bson_size\<close> raises \<open>DocumentTooLarge\<close> with nothing done on the socket and
  the connection unchanged; and \<^verbatim>\<open>send_message\<close> leaves the connection closed
  exactly when the document was not too large and \<^verbatim>\<open>sendall\<close> raised.
\<close>

theorem send_message_too_large:
  assumes "\<not> si_closed s"
  shows "(\<forall>m. si_max_bson_size s = Some m \<and> max_doc_size > m \<longrightarrow>
            send_message message max_doc_size sendall s
              = (s, [], Some (DocumentTooLarge max_doc_size m)))
       \<and> (si_closed (fst (send_message message max_doc_size sendall s))
            \<longleftrightarrow> \<not> (\<exists>m. si_max_bson_size s = Some m \<and> max_doc_size > m)
                \<and> sendall \<noteq> None)"
  using assms
  by (auto simp: send_message_def si_raise_connection_failure_u_def close_socket_def
        close_socket_u_def split: option.splits)

theorem send_message_too_large_witness:
  "\<not> si_closed example_sock
   \<and> si_max_bson_size example_sock = Some 16777216
   \<and> send_message ''m'' 16777217 (Some OSError) example_sock
       = (example_sock, [], Some (DocumentTooLarge 16777217 16777216))
   \<and> \<not> si_closed (fst (send_message ''m'' 16777217 (Some OSError) example_sock))
   \<and> si_closed (fst (send_message ''m'' 16777216 (Some OSError) example_sock))
   \<and> \<not> si_closed (fst (send_message ''m'' 16777216 None example_sock))"
proof -
  have a: "\<not> si_closed example_sock"
    by (simp add: example_defs)
  have b: "si_max_bson_size example_sock = Some 16777216"
    by (simp add: example_defs)
  from send_message_too_large [OF a, of 16777217 "''m''" "Some OSError"]
       send_message_too_large [OF a, of 16777216 "''m''" "Some OSError"]
       send_message_too_large [OF a, of 16777216 "''m''" None]
       a b
  show ?thesis by simp
qed

section \<open>Draining: close and reset\<close>

text \<open>
  What closing the sockets of a drained deque adds to the trace: for every socket that is
  not closed already, the close of the raw socket and, on a pool that publishes CMAP events,
  the \<open>ConnectionClosedEvent\<close> with the reason.
\<close>

lemma close_each_map:
  "close_each reason ss =
     concat (map (\<lambda>s. if si_closed s then [] else closing reason s) ss)"
  by (induction ss) (simp_all add: close_socket_def close_socket_u_def closing_def)

text \<open>
  C5, amended. On a pool that is not CLOSED, \<^verbatim>\<open>close()\<close> wakes the waiters, closes
  every drained connection and only then publishes \<open>PoolClosedEvent\<close>;
  \<^verbatim>\<open>reset()\<close> (and \<^verbatim>\<open>reset_without_pause()\<close>) wakes the waiters, publishes
  \<open>PoolClearedEvent\<close>, only when the state before was not PAUSED, and only then
  closes the drained connections. The two pool events, and the
  \<open>ConnectionClosedEvent\<close> that carries the reason (POOL_CLOSED, respectively STALE),
  are published only with \<^verbatim>\<open>enabled_for_cmap\<close>: without it the same sockets are
  closed in the same order and no event is published. On a CLOSED pool both operations
  return at once: nothing is drained, closed or published.
\<close>

theorem close_reset_event_order:
  "trace (close p) =
     (if state p = CLOSED then trace p
      else trace p @ [NotifyAll max_connecting_cond, NotifyAll size_cond]
           @ concat (map (\<lambda>s. if si_closed s then [] else closing POOL_CLOSED s) (sockets p))
           @ (if enabled_for_cmap p then [PoolClosedEvent] else []))
   \<and> trace (reset p) =
     (if state p = CLOSED then trace p
      else trace p @ [NotifyAll max_connecting_cond, NotifyAll size_cond]
           @ (if state p \<noteq> PAUSED \<and> enabled_for_cmap p then [PoolClearedEvent] else [])
           @ concat (map (\<lambda>s. if si_closed s then [] else closing STALE s) (sockets p)))
   \<and> trace (reset_without_pause p) = trace (reset p)
   \<and> sockets (close p) = (if state p = CLOSED then sockets p else [])
   \<and> sockets (reset p) = (if state p = CLOSED then sockets p else [])"
  by (simp add: close_def reset_def reset_without_pause_def reset_u_def closed_def Let_def
        publish_def emit_def close_each_map)

text \<open>The ready pool with two idle sockets, ids 2 and 1.\<close>

definition stocked_pool :: Pool where
  "stocked_pool = ready_pool\<lparr>sockets := [example_sock\<lparr>si_id := 2\<rparr>, example_sock]\<rparr>"

theorem close_reset_event_order_witness:
  "state stocked_pool \<noteq> CLOSED
   \<and> trace (close stocked_pool) =
       [NotifyAll max_connecting_cond, NotifyAll size_cond,
        SockClose 2, ConnectionClosedEvent 2 POOL_CLOSED,
        SockClose 1, ConnectionClosedEvent 1 POOL_CLOSED, PoolClosedEvent]
   \<and> trace (reset stocked_pool) =
       [NotifyAll max_connecting_cond, NotifyAll size_cond, PoolClearedEvent,
        SockClose 2, ConnectionClosedEvent 2 STALE,
        SockClose 1, ConnectionClosedEvent 1 STALE]
   \<and> trace (reset (reset stocked_pool)) =
       trace (reset stocked_pool) @ [NotifyAll max_connecting_cond, NotifyAll size_cond]
   \<and> trace (close (close stocked_pool)) = trace (close stocked_pool)"
proof -
  have a: "state stocked_pool = READY"
    by (simp add: stocked_pool_def example_defs)
  have b: "state (reset stocked_pool) = PAUSED"
    by (simp add: stocked_pool_def example_defs reset_def reset_u_def closed_def Let_def)
  have c: "state (close stocked_pool) = CLOSED"
    by (simp add: close_def reset_u_def closed_def Let_def publish_def emit_def)
  from close_reset_event_order [of stocked_pool]
       close_reset_event_order [of "reset stocked_pool"]
       close_reset_event_order [of "close stocked_pool"] a b c
  show ?thesis
    by (simp add: stocked_pool_def example_defs closing_def)
qed

section \<open>Checkin\<close>

text \<open>
  The ready pool at time 10 with one connection checked out, and the same pool seen from
  a forked process, whose pid is 8.
\<close>

definition busy_pool :: Pool where
  "busy_pool = ready_pool\<lparr>requests := 1, active_sockets := 1, operation_count := 1,
                           is_writable := Some True, clock := 10\<rparr>"

definition forked_pool :: Pool where
  "forked_pool = busy_pool\<lparr>os_pid := 8\<rparr>"

text \<open>
  C6, as stated, fails after a fork: the pool is not closed, the connection is open and of
  the pool's generation, yet it is neither pushed onto the deque nor closed; the pool is
  reset instead.
\<close>

theorem return_socket_forked_counterexample:
  "state forked_pool \<noteq> CLOSED \<and> \<not> si_closed example_sock
   \<and> si_generation example_sock = generation forked_pool
   \<and> sockets (fst (return_socket example_sock forked_pool)) = []
   \<and> \<not> si_closed (snd (return_socket example_sock forked_pool))
   \<and> state (fst (return_socket example_sock forked_pool)) = PAUSED
   \<and> generation (fst (return_socket example_sock forked_pool)) = 1"
  by (simp add: forked_pool_def busy_pool_def example_defs return_socket_def reset_def
        reset_u_def closed_def Let_def)

text \<open>
  C6, amended. A checkin of an open connection into a pool that is not closed, in the
  process that owns the pool (the pool's pid is the current pid): after
  \<open>ConnectionCheckedInEvent\<close>, a connection of another generation is closed with
  reason STALE; a connection of the pool's generation gets the time of the checkin and the
  pool's \<^verbatim>\<open>is_writable\<close>, goes to the left end of the deque, and one waiter on
  \<^verbatim>\<open>_max_connecting_cond\<close> is notified. In both cases \<^verbatim>\<open>requests\<close>,
  \<^verbatim>\<open>active_sockets\<close> and \<^verbatim>\<open>operation_count\<close> go down by one and one waiter on
  \<^verbatim>\<open>size_cond\<close> is notified, last.
\<close>

theorem return_socket_checkin:
  assumes "pid p = os_pid p" and "state p \<noteq> CLOSED" and "\<not> si_closed s"
  shows "return_socket s p =
     (if si_generation s \<noteq> generation p
      then (p\<lparr>requests := requests p - 1,
               active_sockets := active_sockets p - 1,
               operation_count := operation_count p - 1,
               trace := trace p
                 @ (if enabled_for_cmap p then [ConnectionCheckedInEvent (si_id s)] else [])
                 @ closing STALE s @ [Notify size_cond]\<rparr>,
            s\<lparr>si_closed := True,
               si_cancel_context := map_option (\<lambda>c. True) (si_cancel_context s)\<rparr>)
      else (p\<lparr>sockets := s\<lparr>si_last_checkin_time := clock p,
                             si_is_writable := is_writable p\<rparr> # sockets p,
               requests := requests p - 1,
               active_sockets := active_sockets p - 1,
               operation_count := operation_count p - 1,
               trace := trace p
                 @ (if enabled_for_cmap p then [ConnectionCheckedInEvent (si_id s)] else [])
                 @ [Notify max_connecting_cond, Notify size_cond]\<rparr>,
            s\<lparr>si_last_checkin_time := clock p, si_is_writable := is_writable p\<rparr>))"
  using assms
  by (simp add: return_socket_def Let_def publish_def emit_def closed_def
        pool_close_socket_open update_is_writable_def update_last_checkin_time_def)

theorem return_socket_checkin_witness:
  "pid busy_pool = os_pid busy_pool \<and> state busy_pool \<noteq> CLOSED \<and> \<not> si_closed example_sock
   \<and> return_socket example_sock busy_pool =
       (busy_pool\<lparr>sockets := [example_sock\<lparr>si_last_checkin_time := 10,
                                             si_is_writable := Some True\<rparr>],
                  requests := 0, active_sockets := 0, operation_count := 0,
                  trace := [ConnectionCheckedInEvent 1, Notify max_connecting_cond,
                            Notify size_cond]\<rparr>,
        example_sock\<lparr>si_last_checkin_time := 10, si_is_writable := Some True\<rparr>)
   \<and> trace (fst (return_socket example_sock (busy_pool\<lparr>generation := 1\<rparr>))) =
       [ConnectionCheckedInEvent 1, SockClose 1, ConnectionClosedEvent 1 STALE, Notify size_cond]
   \<and> sockets (fst (return_socket example_sock (busy_pool\<lparr>generation := 1\<rparr>))) = []"
proof -
  have a: "pid busy_pool = os_pid busy_pool" "state busy_pool \<noteq> CLOSED"
    by (simp_all add: busy_pool_def example_defs)
  have a': "pid (busy_pool\<lparr>generation := 1\<rparr>) = os_pid (busy_pool\<lparr>generation := 1\<rparr>)"
    "state (busy_pool\<lparr>generation := 1\<rparr>) \<noteq> CLOSED"
    by (simp_all add: busy_pool_def example_defs)
  have b: "\<not> si_closed example_sock"
    by (simp add: example_defs)
  from return_socket_checkin [OF a b] return_socket_checkin [OF a' b] a b
  show ?thesis
    by (simp add: busy_pool_def example_defs closing_def)
qed

section \<open>Pools that publish no events\<close>

text \<open>
  A pool created without listeners: \<^verbatim>\<open>enabled_for_cmap\<close> is false and nothing is ever
  published.
\<close>

definition quiet_pool :: Pool where
  "quiet_pool = Pool_init (example_options\<lparr>o_event_listeners := None\<rparr>) True 0 7"

text \<open>
  C9, as stated, fails on such a pool: it is PAUSED, \<^verbatim>\<open>ready()\<close> makes it READY, and
  no \<open>PoolReadyEvent\<close> is published. The event is published when the state before
  was not READY and the pool publishes CMAP events.
\<close>

theorem ready_quiet_counterexample:
  "state quiet_pool = PAUSED
   \<and> state (ready quiet_pool) = READY
   \<and> trace (ready quiet_pool) = []"
  by (simp add: quiet_pool_def example_defs)

text \<open>The same pool, made ready, with one idle socket that it created, id 1.\<close>

definition quiet_stocked_pool :: Pool where
  "quiet_stocked_pool =
     (ready quiet_pool)\<lparr>sockets := [SocketInfo_init 16777216 1 (ready quiet_pool)]\<rparr>"

text \<open>
  C5, as stated, fails on such a pool: it is READY and holds a connection, yet
  \<^verbatim>\<open>close()\<close> and \<^verbatim>\<open>reset()\<close> leave the very same trace, the two awakenings and
  the close of the raw socket, with no \<open>PoolClosedEvent\<close>, no
  \<open>PoolClearedEvent\<close> and no reason. It fails on a CLOSED pool as well, with listeners
  or without: \<^verbatim>\<open>reset()\<close> finds a state that is not PAUSED and publishes no
  \<open>PoolClearedEvent\<close>, and a second \<^verbatim>\<open>close()\<close> publishes no second
  \<open>PoolClosedEvent\<close>.
\<close>

theorem close_reset_quiet_counterexample:
  "state quiet_stocked_pool = READY
   \<and> trace (close quiet_stocked_pool) =
       [NotifyAll max_connecting_cond, NotifyAll size_cond, SockClose 1]
   \<and> trace (reset quiet_stocked_pool) =
       [NotifyAll max_connecting_cond, NotifyAll size_cond, SockClose 1]
   \<and> state (close stocked_pool) = CLOSED
   \<and> trace (reset (close stocked_pool)) = trace (close stocked_pool)
   \<and> trace (close (close stocked_pool)) = trace (close stocked_pool)"
  by (simp add: quiet_stocked_pool_def quiet_pool_def stocked_pool_def example_defs
        close_def reset_def reset_u_def closed_def close_socket_def close_socket_u_def
        publish_def emit_def Let_def)

section \<open>Checkout from a closed pool\<close>

text \<open>
  An environment in which nobody else touches the pool: no awakenings, the dial and the
  handshake succeed, and every credential authenticates.
\<close>

definition example_env :: env where
  "example_env =
     \<lparr>size_waits = [], connecting_waits = [], dial = None,
      ismaster_response = IsMasterOk True 16777216, auth = (\<lambda>c. None),
      MAX_BSON_SIZE = 16777216\<rparr>"

text \<open>Checkouts one after the other, each with its own environment and credentials.\<close>

fun checkouts :: "(env \<times> cred list) list \<Rightarrow> Pool \<Rightarrow> Pool \<times> SocketInfo outcome list" where
  "checkouts [] p = (p, [])"
| "checkouts (c # cs) p =
     (case get_socket_u (fst c) (snd c) p of
        (p1, r) \<Rightarrow> (case checkouts cs p1 of (p2, rs) \<Rightarrow> (p2, r # rs)))"

lemma get_socket_u_closed:
  "state p = CLOSED \<Longrightarrow>
   get_socket_u ev cs p =
     (p\<lparr>trace := trace p
          @ (if enabled_for_cmap p
             then [ConnectionCheckOutFailedEvent CHECKOUT_POOL_CLOSED] else [])\<rparr>,
      Raised PoolClosedError)"
  by (simp add: get_socket_u_def reset_def reset_u_def closed_def Let_def publish_def emit_def)

lemma state_close: "state (close p) = CLOSED"
  by (simp add: close_def reset_u_def closed_def Let_def publish_def emit_def)

lemma checkouts_closed:
  "state p = CLOSED \<Longrightarrow>
   checkouts calls p =
     (p\<lparr>trace := trace p
          @ (if enabled_for_cmap p
             then replicate (length calls) (ConnectionCheckOutFailedEvent CHECKOUT_POOL_CLOSED)
             else [])\<rparr>,
      replicate (length calls) (Raised PoolClosedError))"
proof (induction calls arbitrary: p)
  case Nil
  then show ?case by simp
next
  case (Cons c calls)
  let ?p1 = "p\<lparr>trace := trace p
          @ (if enabled_for_cmap p
             then [ConnectionCheckOutFailedEvent CHECKOUT_POOL_CLOSED] else [])\<rparr>"
  have "state ?p1 = CLOSED" using Cons.prems by simp
  from Cons.IH [OF this] get_socket_u_closed [OF Cons.prems, of "fst c" "snd c"]
  show ?case by (simp add: replicate_app_Cons_same)
qed

text \<open>
  C7, as stated, fails on a pool that publishes no events: the checkout from the closed
  pool raises the pool-closed error, and no \<open>ConnectionCheckOutFailedEvent\<close> is
  published (the trace holds what \<^verbatim>\<open>close()\<close> did and nothing more).
\<close>

theorem get_socket_closed_quiet_counterexample:
  "state (close quiet_pool) = CLOSED
   \<and> snd (get_socket_u example_env [] (close quiet_pool)) = Raised PoolClosedError
   \<and> trace (fst (get_socket_u example_env [] (close quiet_pool)))
       = [NotifyAll max_connecting_cond, NotifyAll size_cond]"
  by (simp add: get_socket_u_closed state_close)
     (simp add: quiet_pool_def example_defs close_def reset_u_def closed_def Let_def)

text \<open>
  C7, amended. Every checkout from a CLOSED pool fails with the pool-closed error, leaves
  the pool as it is, and publishes \<open>ConnectionCheckOutFailedEvent\<close> with reason
  POOL_CLOSED when the pool publishes CMAP events (and nothing otherwise); a pool is CLOSED
  after \<^verbatim>\<open>close()\<close>; hence any number of checkouts after \<^verbatim>\<open>close()\<close> all fail
  with pool-closed, and what they add to the trace are those events alone: no
  \<open>ConnectionCreatedEvent\<close>.
\<close>

theorem get_socket_after_close:
  "(state p = CLOSED \<longrightarrow>
      get_socket_u ev cs p =
        (p\<lparr>trace := trace p
             @ (if enabled_for_cmap p
                then [ConnectionCheckOutFailedEvent CHECKOUT_POOL_CLOSED] else [])\<rparr>,
         Raised PoolClosedError))
   \<and> state (close q) = CLOSED
   \<and> snd (checkouts calls (close q)) = replicate (length calls) (Raised PoolClosedError)
   \<and> trace (fst (checkouts calls (close q))) =
       trace (close q)
       @ (if enabled_for_cmap q
          then replicate (length calls) (ConnectionCheckOutFailedEvent CHECKOUT_POOL_CLOSED)
          else [])
   \<and> (\<forall>n. ConnectionCreatedEvent n \<in> set (trace (fst (checkouts calls (close q))))
          \<longrightarrow> ConnectionCreatedEvent n \<in> set (trace (close q)))"
proof -
  have e: "enabled_for_cmap (close q) = enabled_for_cmap q"
    by (simp add: close_def reset_u_def closed_def Let_def publish_def emit_def)
  show ?thesis
    using get_socket_u_closed [of p ev cs] checkouts_closed [OF state_close, of calls q]
    by (auto simp: state_close e)
qed

theorem get_socket_after_close_witness:
  "state (close ready_pool) = CLOSED
   \<and> get_socket_u example_env [] (close ready_pool) =
       ((close ready_pool)\<lparr>trace := trace (close ready_pool)
           @ [ConnectionCheckOutFailedEvent CHECKOUT_POOL_CLOSED]\<rparr>,
        Raised PoolClosedError)
   \<and> snd (checkouts [(example_env, []), (example_env, [])] (close ready_pool))
       = [Raised PoolClosedError, Raised PoolClosedError]
   \<and> trace (fst (checkouts [(example_env, []), (example_env, [])] (close ready_pool)))
       = [NotifyAll max_connecting_cond, NotifyAll size_cond, PoolClosedEvent,
          ConnectionCheckOutFailedEvent CHECKOUT_POOL_CLOSED,
          ConnectionCheckOutFailedEvent CHECKOUT_POOL_CLOSED]"
proof -
  have e: "enabled_for_cmap (close ready_pool)" "enabled_for_cmap ready_pool"
    by (simp_all add: example_defs close_def reset_u_def closed_def Let_def)
  have t: "trace (close ready_pool)
            = [NotifyAll max_connecting_cond, NotifyAll size_cond, PoolClosedEvent]"
    by (simp add: example_defs close_def reset_u_def closed_def Let_def)
  from get_socket_after_close
         [of "close ready_pool" example_env "[]" ready_pool
             "[(example_env, []), (example_env, [])]"]
       e t
  show ?thesis by (simp del: checkouts.simps)
qed

section \<open>Timeouts in the wait queue\<close>

text \<open>
  Two awakenings by timeout: during the first nobody touched the pool; during the second
  another thread gave its place back (one request less, one pending connection less) just
  as the timeout expired. And the ready pool at time 10 with both connecting places taken.
\<close>

definition timeout_wait :: wait where
  "timeout_wait = \<lparr>notified = False, interference = (\<lambda>p. p)\<rparr>"

definition late_release_wait :: wait where
  "late_release_wait =
     \<lparr>notified = False,
      interference = (\<lambda>p. p\<lparr>requests := requests p - 1, pending := pending p - 1\<rparr>)\<rparr>"

definition connecting_pool :: Pool where
  "connecting_pool = ready_pool\<lparr>pending := 2, clock := 10\<rparr>"

text \<open>
  C8, as stated, fails: a waiter that times out while the condition it waits for still
  does not hold notifies nobody on that condition variable. On the full pool the trace of
  the failed checkout is the timeout event alone; on the pool whose connecting places are
  taken it is the timeout event and the notification of \<^verbatim>\<open>size_cond\<close> by the
  exception handler, with none on \<^verbatim>\<open>_max_connecting_cond\<close>.
\<close>

theorem timeout_without_notify_counterexample:
  "get_socket_u (example_env\<lparr>size_waits := [timeout_wait]\<rparr>) [] busy_pool
     = (busy_pool\<lparr>operation_count := 2,
                   trace := [ConnectionCheckOutFailedEvent TIMEOUT]\<rparr>,
        Raised WaitQueueTimeout)
   \<and> get_socket_u (example_env\<lparr>connecting_waits := [timeout_wait]\<rparr>) [] connecting_pool
     = (connecting_pool\<lparr>operation_count := 1,
                         trace := [ConnectionCheckOutFailedEvent TIMEOUT, Notify size_cond]\<rparr>,
        Raised WaitQueueTimeout)"
  by (simp add: get_socket_u_def size_cond_block_def raise_if_not_ready_u_def lt_inf_def
        cond_wait_u_def raise_wait_queue_timeout_u_def get_socket_except_def publish_def emit_def closed_def
        timeout_wait_def connecting_pool_def busy_pool_def example_env_def example_defs
        Let_def)

text \<open>
  C8, amended. A wait on either condition variable that times out leaves the pool as the
  other threads left it, notifies one waiter on that condition variable exactly when the
  condition waited for holds at that moment (\<^verbatim>\<open>requests < max_pool_size\<close>, or a
  pooled socket or a free connecting place), then publishes the timeout event (on a pool
  that publishes CMAP events) and raises the wait-queue-timeout failure.
\<close>

theorem timeout_notifies_when_condition_holds:
  "(\<not> lt_inf (requests p) (max_pool_size p) \<and> \<not> cond_wait_u deadline w \<longrightarrow>
      size_cond_loop deadline (w # ws) p =
        ((interference w p)
           \<lparr>trace := trace (interference w p)
              @ (if lt_inf (requests (interference w p)) (max_pool_size (interference w p))
                 then [Notify size_cond] else [])
              @ (if enabled_for_cmap (interference w p)
                 then [ConnectionCheckOutFailedEvent TIMEOUT] else [])\<rparr>,
         Raised WaitQueueTimeout))
   \<and> (\<not> (sockets p \<noteq> [] \<or> pending p < max_connecting p) \<and> \<not> cond_wait_u deadline w \<longrightarrow>
      max_connecting_cond_loop deadline (w # ws) p =
        (((interference w p)
            \<lparr>trace := trace (interference w p)
               @ (if sockets (interference w p) \<noteq> []
                     \<or> pending (interference w p) < max_connecting (interference w p)
                  then [Notify max_connecting_cond] else [])
               @ (if enabled_for_cmap (interference w p)
                  then [ConnectionCheckOutFailedEvent TIMEOUT] else [])\<rparr>,
          ws),
         Raised WaitQueueTimeout, True))"
  by (simp add: raise_wait_queue_timeout_u_def publish_def emit_def Let_def)

theorem timeout_notifies_when_condition_holds_witness:
  "\<not> lt_inf (requests busy_pool) (max_pool_size busy_pool)
   \<and> \<not> cond_wait_u (Some 15) late_release_wait
   \<and> size_cond_loop (Some 15) [late_release_wait] busy_pool =
       (busy_pool\<lparr>requests := 0, pending := - 1,
                   trace := [Notify size_cond, ConnectionCheckOutFailedEvent TIMEOUT]\<rparr>,
        Raised WaitQueueTimeout)
   \<and> \<not> (sockets connecting_pool \<noteq> [] \<or> pending connecting_pool < max_connecting connecting_pool)
   \<and> max_connecting_cond_loop (Some 15) [late_release_wait] connecting_pool =
       ((connecting_pool\<lparr>requests := - 1, pending := 1,
                          trace := [Notify max_connecting_cond,
                                    ConnectionCheckOutFailedEvent TIMEOUT]\<rparr>, []),
        Raised WaitQueueTimeout, True)"
proof -
  have a: "\<not> lt_inf (requests busy_pool) (max_pool_size busy_pool)"
    by (simp add: lt_inf_def busy_pool_def example_defs)
  have b: "\<not> cond_wait_u (Some 15) late_release_wait"
    by (simp add: cond_wait_u_def late_release_wait_def)
  have c: "\<not> (sockets connecting_pool \<noteq> []
               \<or> pending connecting_pool < max_connecting connecting_pool)"
    by (simp add: connecting_pool_def example_defs)
  from timeout_notifies_when_condition_holds
         [of busy_pool "Some 15" late_release_wait "[]"]
       timeout_notifies_when_condition_holds
         [of connecting_pool "Some 15" late_release_wait "[]"]
       a b c
  show ?thesis
    by (simp add: lt_inf_def late_release_wait_def busy_pool_def connecting_pool_def
          example_defs del: size_cond_loop.simps max_connecting_cond_loop.simps)
qed

section \<open>Checkouts that fail\<close>

text \<open>
  Three checkouts that fail after \<^verbatim>\<open>operation_count\<close> was incremented: from the
  paused pool; from the ready pool when the dial fails; from the ready pool holding one
  idle socket when the authentication of credential 0 fails.
\<close>

definition refusing_env :: env where
  "refusing_env = example_env\<lparr>dial := Some OSError\<rparr>"

definition denying_env :: env where
  "denying_env = example_env\<lparr>auth := (\<lambda>c. Some (Propagated OperationFailure))\<rparr>"

definition idle_pool :: Pool where
  "idle_pool = ready_pool\<lparr>sockets := [example_sock]\<rparr>"

text \<open>
  C2 is what the code should do and does not: \<^verbatim>\<open>operation_count\<close>, incremented at
  the start of \<^verbatim>\<open>_get_socket\<close>, is decremented nowhere on the way out of a failed
  checkout. After each of the three failures \<^verbatim>\<open>requests\<close>, \<^verbatim>\<open>active_sockets\<close>
  and \<^verbatim>\<open>pending\<close> are back at 0 and \<^verbatim>\<open>operation_count\<close> is 1, where it was 0.
  From the paused pool nothing is notified either.
\<close>

theorem failed_checkout_leaks_operation_count:
  "operation_count paused_pool = 0
   \<and> get_socket_u example_env [] paused_pool
       = (paused_pool\<lparr>operation_count := 1,
                      trace := [PoolCreatedEvent, ConnectionCheckOutFailedEvent CONN_ERROR]\<rparr>,
          Raised (AutoReconnect PoolPausedCause))
   \<and> operation_count ready_pool = 0
   \<and> get_socket_u refusing_env [] ready_pool
       = (ready_pool\<lparr>operation_count := 1, next_connection_id := 2,
                     trace := [ConnectionCreatedEvent 1, ConnectionClosedEvent 1 ERROR,
                               Notify max_connecting_cond, Notify size_cond,
                               ConnectionCheckOutFailedEvent CONN_ERROR]\<rparr>,
          Raised (AutoReconnect OSError))
   \<and> operation_count idle_pool = 0
   \<and> get_socket_u denying_env [0] idle_pool
       = (ready_pool\<lparr>operation_count := 1,
                     trace := [SockClose 1, ConnectionClosedEvent 1 ERROR, Notify size_cond,
                               ConnectionCheckOutFailedEvent CONN_ERROR]\<rparr>,
          Raised (Propagated OperationFailure))"
  by (simp add: get_socket_u_def size_cond_block_def raise_if_not_ready_u_def lt_inf_def
        get_socket_except_def closed_def connect_def perished_u_def idle_time_seconds_def
        socket_closed_def check_auth_def pool_close_socket_def close_socket_def
        close_socket_u_def refusing_env_def denying_env_def idle_pool_def example_env_def
        example_defs Let_def)

section \<open>The closed state\<close>

text \<open>
  C3 is what the code is meant to do and does not: \<^verbatim>\<open>ready()\<close> assigns READY
  whatever the state was. It has no guard \<^verbatim>\<open>if self.closed: return\<close>, which
  \<^verbatim>\<open>_reset\<close> has, and which \<^verbatim>\<open>_get_socket\<close> and \<^verbatim>\<open>return_socket\<close> have in their
  own form. The pool that was closed, and that has published \<open>PoolClosedEvent\<close>, is
  READY again after \<^verbatim>\<open>ready()\<close> and publishes \<open>PoolReadyEvent\<close>; a checkout from
  it connects and returns the connection with id 1.
\<close>

theorem ready_reopens_closed_pool:
  "state (close ready_pool) = CLOSED
   \<and> state (ready (close ready_pool)) = READY
   \<and> (case snd (get_socket_u example_env [] (ready (close ready_pool))) of
         Returned s \<Rightarrow> si_id s = 1 \<and> \<not> si_closed s
       | Raised e \<Rightarrow> False
       | Blocked \<Rightarrow> False)
   \<and> trace (fst (get_socket_u example_env [] (ready (close ready_pool)))) =
       [NotifyAll max_connecting_cond, NotifyAll size_cond, PoolClosedEvent, PoolReadyEvent,
        ConnectionCreatedEvent 1, ConnectionReadyEvent 1, Notify max_connecting_cond]"
  by (simp add: get_socket_u_def size_cond_block_def raise_if_not_ready_u_def lt_inf_def
        closed_def connect_def ismaster_def check_auth_def close_def reset_u_def
        example_env_def example_defs Let_def)

lemma state_reset_u:
  "state (reset_u c pause p) =
     (if state p = CLOSED then CLOSED
      else if c then CLOSED
      else if o_pause_enabled (opts p) \<and> pause then PAUSED else state p)"
  by (auto simp: reset_u_def closed_def Let_def publish_def emit_def)

lemma state_return_socket:
  "state p = CLOSED \<Longrightarrow> state (fst (return_socket s p)) = CLOSED"
  by (simp add: return_socket_def Let_def publish_def emit_def closed_def reset_def
        state_reset_u pool_close_socket_def split: prod.split)

text \<open>
  Every other operation does keep the closed state: once the pool is CLOSED,
  \<^verbatim>\<open>reset()\<close>, \<^verbatim>\<open>reset_without_pause()\<close>, \<^verbatim>\<open>close()\<close>, checkout, checkin and
  maintenance leave it CLOSED, so that \<^verbatim>\<open>ready()\<close> is the only way out of it. From a
  state that is not CLOSED, \<^verbatim>\<open>reset()\<close> leads to PAUSED (or, when pausing is
  disabled, leaves the state as it is), \<^verbatim>\<open>reset_without_pause()\<close> leaves the state
  as it is, \<^verbatim>\<open>close()\<close> leads to CLOSED and \<^verbatim>\<open>ready()\<close> leads to READY.
\<close>

theorem closed_is_kept:
  "(state p = CLOSED \<longrightarrow>
      state (reset p) = CLOSED \<and> state (reset_without_pause p) = CLOSED
      \<and> state (close p) = CLOSED
      \<and> state (fst (get_socket_u ev cs p)) = CLOSED
      \<and> snd (get_socket_u ev cs p) = Raised PoolClosedError
      \<and> state (fst (return_socket s p)) = CLOSED
      \<and> remove_stale_sockets g envs cs p = (p, Inr ()))
   \<and> (state p \<noteq> CLOSED \<longrightarrow>
      state (reset p) = (if o_pause_enabled (opts p) then PAUSED else state p)
      \<and> state (reset_without_pause p) = state p
      \<and> state (close p) = CLOSED
      \<and> state (ready p) = READY)"
  by (simp add: reset_def reset_without_pause_def close_def state_reset_u
        get_socket_u_closed state_return_socket remove_stale_sockets_def ready_def
        publish_def emit_def Let_def)

theorem closed_is_kept_witness:
  "state (close ready_pool) = CLOSED
   \<and> state (reset (close ready_pool)) = CLOSED
   \<and> state (fst (get_socket_u example_env [] (close ready_pool))) = CLOSED
   \<and> state (fst (return_socket example_sock (close ready_pool))) = CLOSED
   \<and> state ready_pool = READY
   \<and> state (reset ready_pool) = PAUSED
   \<and> state (ready (reset ready_pool)) = READY"
proof -
  have a: "state (close ready_pool) = CLOSED" by (rule state_close)
  have b: "state ready_pool = READY" "o_pause_enabled (opts ready_pool)"
    by (simp_all add: example_defs)
  have c: "state (reset ready_pool) = PAUSED"
    by (simp add: reset_def state_reset_u b)
  from closed_is_kept [of "close ready_pool" example_env "[]" example_sock]
       closed_is_kept [of ready_pool]
       closed_is_kept [of "reset ready_pool"]
       a b c
  show ?thesis by simp
qed

section \<open>The bound of the pool size\<close>

text \<open>
  The block \<^verbatim>\<open>with self._max_connecting_cond:\<close> at the head of the loop
  \<^verbatim>\<open>while sock_info is None\<close>, on its own: it ends with a socket taken from the left
  end of the deque, or with \<^verbatim>\<open>_pending\<close> incremented and no socket. The lock is
  released when it ends, and \<^verbatim>\<open>connect\<close> runs without it.
\<close>

definition max_connecting_cond_block ::
  "int option \<Rightarrow> wait list \<Rightarrow> Pool
   \<Rightarrow> (Pool \<times> wait list) \<times> SocketInfo option outcome \<times> bool" where
  "max_connecting_cond_block deadline ws p =
     (case raise_if_not_ready_u False p of
        (p1, Some e) \<Rightarrow> ((p1, ws), Raised e, False)
      | (p1, None) \<Rightarrow>
          (case max_connecting_cond_loop deadline ws p1 of
             ((p2, ws'), Blocked, emitted) \<Rightarrow> ((p2, ws'), Blocked, emitted)
           | ((p2, ws'), Raised e, emitted) \<Rightarrow> ((p2, ws'), Raised e, emitted)
           | ((p2, ws'), Returned u, emitted) \<Rightarrow>
               (case sockets p2 of
                  s # rest \<Rightarrow> ((p2\<lparr>sockets := rest\<rparr>, ws'), Returned (Some s), emitted)
                | [] \<Rightarrow> ((p2\<lparr>pending := pending p2 + 1\<rparr>, ws'), Returned None, emitted))))"

lemma get_socket_loop_block:
  "get_socket_loop deadline ws ev cs p =
     (case max_connecting_cond_block deadline ws p of
        ((p2, ws'), Blocked, emitted) \<Rightarrow> (p2, Blocked, emitted)
      | ((p2, ws'), Raised e, emitted) \<Rightarrow> (p2, Raised e, emitted)
      | ((p2, ws'), Returned (Some s), emitted) \<Rightarrow>
          (case perished_u s p2 of
             ((p3, s'), True) \<Rightarrow> get_socket_loop deadline ws' ev cs p3
           | ((p3, s'), False) \<Rightarrow> (p3, Returned s', emitted))
      | ((p2, ws'), Returned None, emitted) \<Rightarrow>
          (case connect ev cs p2 of
             (p3, r) \<Rightarrow>
               (emit [Notify max_connecting_cond] (p3\<lparr>pending := pending p3 - 1\<rparr>),
                (case r of Inl e \<Rightarrow> Raised e | Inr s \<Rightarrow> Returned s),
                emitted)))"
  by (subst get_socket_loop.simps)
     (simp add: max_connecting_cond_block_def
           split: prod.split option.split outcome.split list.split bool.split)

text \<open>
  The ready pool (\<^verbatim>\<open>maxPoolSize=1\<close>) in the middle of its first checkout: admitted
  by the first portion of the wait queue and counted as active, and then at the end of the
  block above, with a connection to be made.
\<close>

definition admitted_pool :: Pool where
  "admitted_pool = ready_pool\<lparr>operation_count := 1, requests := 1, active_sockets := 1\<rparr>"

definition dialing_pool :: Pool where
  "dialing_pool = admitted_pool\<lparr>pending := 1\<rparr>"

text \<open>
  C4, as stated, fails: the single thread that checks out from the pool of size 1 holds
  the pool, between two blocks under the lock and for as long as the dial takes, in a
  state with one active checkout and one pending creation.
\<close>

theorem dialing_exceeds_bound_counterexample:
  "size_cond_block (Some 5) [] (ready_pool\<lparr>operation_count := 1\<rparr>)
     = (ready_pool\<lparr>operation_count := 1, requests := 1\<rparr>, Returned ())
   \<and> max_connecting_cond_block (Some 5) []
         (ready_pool\<lparr>operation_count := 1, requests := 1, active_sockets := 1\<rparr>)
     = ((dialing_pool, []), Returned None, False)
   \<and> max_pool_size dialing_pool = Some 1
   \<and> active_sockets dialing_pool + pending dialing_pool = 2"
  by (simp add: size_cond_block_def max_connecting_cond_block_def raise_if_not_ready_u_def
        lt_inf_def dialing_pool_def admitted_pool_def example_defs)
text \<open>
  What the code does bound by \<^verbatim>\<open>max_pool_size\<close> is \<^verbatim>\<open>requests\<close>, the number
  of places given out by the first portion of the wait queue (to checkouts and to
  maintenance). \<open>others_keep ws\<close>: the other threads, while this one waits, keep the
  bound too.
\<close>

definition requests_bounded :: "Pool \<Rightarrow> bool" where
  "requests_bounded p = (max_pool_size p = None \<or> requests p \<le> the (max_pool_size p))"

definition others_keep :: "wait list \<Rightarrow> bool" where
  "others_keep ws =
     (\<forall>w \<in> set ws. \<forall>q. requests_bounded q \<longrightarrow> requests_bounded (interference w q))"

definition min_below_max :: "Pool \<Rightarrow> bool" where
  "min_below_max p =
     (max_pool_size p = None \<or> o_min_pool_size (opts p) \<le> the (max_pool_size p))"

lemma requests_bounded_same:
  "requests q = requests p \<Longrightarrow> max_pool_size q = max_pool_size p \<Longrightarrow>
   requests_bounded q = requests_bounded p"
  by (simp add: requests_bounded_def)

lemma requests_bounded_less:
  "requests q \<le> requests p \<Longrightarrow> max_pool_size q = max_pool_size p \<Longrightarrow>
   requests_bounded p \<Longrightarrow> requests_bounded q"
  by (auto simp: requests_bounded_def)

lemma requests_bounded_frame: "frame p q \<Longrightarrow> requests_bounded q = requests_bounded p"
  by (simp add: frame_def requests_bounded_def)

lemma requests_bounded_emit [simp]: "requests_bounded (emit es p) = requests_bounded p"
  by (simp add: requests_bounded_def emit_def)

lemma requests_bounded_publish [simp]: "requests_bounded (publish e p) = requests_bounded p"
  by (simp add: publish_def)

lemma requests_bounded_close [simp]:
  "requests_bounded (fst (pool_close_socket r s p)) = requests_bounded p"
  by (simp add: pool_close_socket_def split: prod.split)

lemma requests_bounded_raise_if_not_ready [simp]:
  "requests_bounded (fst (raise_if_not_ready_u b p)) = requests_bounded p"
  by (simp add: raise_if_not_ready_u_def)

lemma requests_bounded_timeout [simp]:
  "requests_bounded (fst (raise_wait_queue_timeout_u p)) = requests_bounded p"
  by (simp add: raise_wait_queue_timeout_u_def)

lemma requests_bounded_reset_u [simp]:
  "requests_bounded (reset_u c pause p) = requests_bounded p"
  by (simp add: reset_u_def Let_def requests_bounded_def publish_def emit_def closed_def)

lemma requests_bounded_perished:
  "requests_bounded (fst (fst (perished_u s p))) = requests_bounded p"
  by (simp add: perished_u_def Let_def)

lemma requests_bounded_connect:
  "requests_bounded (fst (connect ev cs p)) = requests_bounded p"
  by (rule requests_bounded_frame [OF frame_connect])

lemma others_keep_Cons:
  "others_keep (w # ws) \<Longrightarrow>
   others_keep ws \<and> (requests_bounded q \<longrightarrow> requests_bounded (interference w q))"
  by (simp add: others_keep_def)

lemma size_cond_loop_bounded:
  "requests_bounded p \<Longrightarrow> others_keep ws \<Longrightarrow>
   requests_bounded (fst (size_cond_loop d ws p))
   \<and> (snd (size_cond_loop d ws p) = Returned () \<longrightarrow>
        lt_inf (requests (fst (size_cond_loop d ws p)))
               (max_pool_size (fst (size_cond_loop d ws p))))"
proof (induction ws arbitrary: p)
  case Nil
  then show ?case by simp
next
  case (Cons w ws)
  from others_keep_Cons [OF Cons.prems(2), of p] Cons.prems(1)
  have k: "others_keep ws" and i: "requests_bounded (interference w p)" by simp_all
  show ?case
  proof (cases "lt_inf (requests p) (max_pool_size p)")
    case True
    with Cons.prems show ?thesis by simp
  next
    case False
    show ?thesis
    proof (cases "cond_wait_u d w")
      case False
      with \<open>\<not> lt_inf (requests p) (max_pool_size p)\<close> i show ?thesis
        by (simp add: Let_def raise_wait_queue_timeout_u_def)
    next
      case True
      obtain p2 r where r: "raise_if_not_ready_u True (interference w p) = (p2, r)"
        by (cases "raise_if_not_ready_u True (interference w p)")
      with i requests_bounded_raise_if_not_ready [of True "interference w p"]
      have b2: "requests_bounded p2" by simp
      from Cons.IH [OF b2 k] True \<open>\<not> lt_inf (requests p) (max_pool_size p)\<close> r b2
      show ?thesis by (cases r) (simp_all add: Let_def)
    qed
  qed
qed

lemma size_cond_block_bounded:
  assumes "requests_bounded p" and "others_keep ws"
  shows "requests_bounded (fst (size_cond_block d ws p))"
proof -
  obtain p1 r where r: "raise_if_not_ready_u True p = (p1, r)"
    by (cases "raise_if_not_ready_u True p")
  with assms(1) requests_bounded_raise_if_not_ready [of True p]
  have b1: "requests_bounded p1" by simp
  let ?q = "p1\<lparr>waiters := waiters p1 + 1\<rparr>"
  have bq: "requests_bounded ?q" using b1 by (simp add: requests_bounded_def)
  obtain p2 o2 where l: "size_cond_loop d ws ?q = (p2, o2)"
    by (cases "size_cond_loop d ws ?q")
  from size_cond_loop_bounded [OF bq assms(2), of d] l
  have b2: "requests_bounded p2"
    and lt: "o2 = Returned () \<longrightarrow> lt_inf (requests p2) (max_pool_size p2)"
    by simp_all
  show ?thesis
  proof (cases r)
    case (Some e)
    with r b1 show ?thesis by (simp add: size_cond_block_def)
  next
    case None
    show ?thesis
    proof (cases "lt_inf (waiters p1) (max_waiters p1)")
      case False
      with r None b1 show ?thesis by (simp add: size_cond_block_def)
    next
      case True
      with r None l b2 lt show ?thesis
        by (cases o2)
           (auto simp: size_cond_block_def Let_def requests_bounded_def lt_inf_def
                 split: option.splits)
    qed
  qed
qed
declare get_socket_loop.simps [simp del]

declare prune_idle.simps [simp del]

lemma max_connecting_cond_loop_bounded:
  "requests_bounded p \<Longrightarrow> others_keep ws \<Longrightarrow>
   requests_bounded (fst (fst (max_connecting_cond_loop d ws p)))
   \<and> others_keep (snd (fst (max_connecting_cond_loop d ws p)))"
proof (induction ws arbitrary: p)
  case Nil
  then show ?case by simp
next
  case (Cons w ws)
  from others_keep_Cons [OF Cons.prems(2), of p] Cons.prems(1)
  have k: "others_keep ws" and i: "requests_bounded (interference w p)" by simp_all
  show ?case
  proof (cases "sockets p \<noteq> [] \<or> pending p < max_connecting p")
    case True
    with Cons.prems show ?thesis by auto
  next
    case False
    show ?thesis
    proof (cases "cond_wait_u d w")
      case False
      with \<open>\<not> (sockets p \<noteq> [] \<or> pending p < max_connecting p)\<close> i k show ?thesis
        by (simp add: Let_def raise_wait_queue_timeout_u_def)
    next
      case True
      obtain p2 r where r: "raise_if_not_ready_u False (interference w p) = (p2, r)"
        by (cases "raise_if_not_ready_u False (interference w p)")
      with i requests_bounded_raise_if_not_ready [of False "interference w p"]
      have b2: "requests_bounded p2" by simp
      from Cons.IH [OF b2 k] True \<open>\<not> (sockets p \<noteq> [] \<or> pending p < max_connecting p)\<close>
           r b2 k
      show ?thesis by (cases r) (simp_all add: Let_def)
    qed
  qed
qed

lemma max_connecting_cond_block_bounded:
  assumes "requests_bounded p" and "others_keep ws"
  shows "requests_bounded (fst (fst (max_connecting_cond_block d ws p)))
         \<and> others_keep (snd (fst (max_connecting_cond_block d ws p)))"
proof -
  obtain p1 r where r: "raise_if_not_ready_u False p = (p1, r)"
    by (cases "raise_if_not_ready_u False p")
  with assms(1) requests_bounded_raise_if_not_ready [of False p]
  have b1: "requests_bounded p1" by simp
  obtain p2 ws' o2 em where l: "max_connecting_cond_loop d ws p1 = ((p2, ws'), o2, em)"
    by (cases "max_connecting_cond_loop d ws p1") auto
  from max_connecting_cond_loop_bounded [OF b1 assms(2), of d] l
  have b2: "requests_bounded p2" and k2: "others_keep ws'" by simp_all
  have b3: "requests_bounded (p2\<lparr>sockets := xs\<rparr>)"
    "requests_bounded (p2\<lparr>pending := n\<rparr>)" for xs n
    using b2 by (simp_all add: requests_bounded_def)
  show ?thesis
    using r l b1 b2 k2 b3 assms(2)
    by (cases r; cases o2; cases "sockets p2")
       (simp_all add: max_connecting_cond_block_def)
qed

lemma max_connecting_cond_block_Some:
  assumes "max_connecting_cond_block d ws p = ((p2, ws'), Returned (Some s), em)"
  shows "\<exists>p1 q rest. raise_if_not_ready_u False p = (p1, None)
           \<and> max_connecting_cond_loop d ws p1 = ((q, ws'), Returned (), em)
           \<and> sockets q = s # rest \<and> p2 = q\<lparr>sockets := rest\<rparr>"
  using assms
  by (auto simp: max_connecting_cond_block_def
           split: prod.splits option.splits outcome.splits list.splits)

lemma get_socket_loop_bounded:
  "requests_bounded p \<Longrightarrow> others_keep ws \<Longrightarrow>
   requests_bounded (fst (get_socket_loop d ws ev cs p))"
proof (induction d ws ev cs p rule: get_socket_loop.induct)
  case (1 d ws ev cs p)
  obtain p2 ws' o2 em where b: "max_connecting_cond_block d ws p = ((p2, ws'), o2, em)"
    by (cases "max_connecting_cond_block d ws p") auto
  from max_connecting_cond_block_bounded [OF "1.prems", of d] b
  have b2: "requests_bounded p2" and k2: "others_keep ws'" by simp_all
  show ?case
  proof (cases o2)
    case Blocked
    with b b2 show ?thesis by (simp add: get_socket_loop_block)
  next
    case (Raised e)
    with b b2 show ?thesis by (simp add: get_socket_loop_block)
  next
    case (Returned so)
    show ?thesis
    proof (cases so)
      case None
      obtain p3 r where c: "connect ev cs p2 = (p3, r)" by (cases "connect ev cs p2")
      with requests_bounded_connect [of ev cs p2] b2 have "requests_bounded p3" by simp
      then have "requests_bounded (p3\<lparr>pending := pending p3 - 1\<rparr>)"
        by (simp add: requests_bounded_def)
      with b Returned None c show ?thesis by (simp add: get_socket_loop_block)
    next
      case (Some s)
      obtain p3 s' gone where pe: "perished_u s p2 = ((p3, s'), gone)"
        by (cases "perished_u s p2") auto
      with requests_bounded_perished [of s p2] b2 have b3: "requests_bounded p3" by simp
      show ?thesis
      proof (cases gone)
        case False
        with b Returned Some pe b3 show ?thesis by (simp add: get_socket_loop_block)
      next
        case True
        from max_connecting_cond_block_Some [OF b [unfolded Returned Some]]
        obtain p1 q rest where
          u1: "raise_if_not_ready_u False p = (p1, None)" and
          u2: "max_connecting_cond_loop d ws p1 = ((q, ws'), Returned (), em)" and
          u3: "sockets q = s # rest" and u4: "p2 = q\<lparr>sockets := rest\<rparr>"
          by blast
        from pe True u4 have u5: "perished_u s (q\<lparr>sockets := rest\<rparr>) = ((p3, s'), True)"
          by simp
        have "requests_bounded (fst (get_socket_loop d ws' ev cs p3))"
          by (rule "1.IH" [OF u1 [symmetric] refl u2 [symmetric] refl refl refl u3
                              u5 [symmetric] refl refl b3 k2])
        with b Returned Some pe True show ?thesis by (simp add: get_socket_loop_block)
      qed
    qed
  qed
qed
lemma get_socket_except_bounded:
  assumes "requests_bounded p"
  shows "requests_bounded (get_socket_except so inc em p)"
proof -
  define p1 where "p1 = (case so of Some s \<Rightarrow> fst (pool_close_socket ERROR s p) | None \<Rightarrow> p)"
  have b1: "requests_bounded p1"
    using assms by (cases so) (simp_all add: p1_def)
  have e: "get_socket_except so inc em p =
     (let p2 = p1\<lparr>requests := requests p1 - 1\<rparr>;
          p3 = (if inc then p2\<lparr>active_sockets := active_sockets p2 - 1\<rparr> else p2);
          p4 = emit [Notify size_cond] p3
      in if enabled_for_cmap p4 \<and> \<not> em
         then emit [ConnectionCheckOutFailedEvent CONN_ERROR] p4 else p4)"
    by (simp add: get_socket_except_def p1_def Let_def)
  from b1 show ?thesis
    unfolding e by (auto simp: Let_def requests_bounded_def emit_def)
qed

lemma get_socket_u_bounded:
  assumes "requests_bounded p" and "others_keep (size_waits ev)"
    and "others_keep (connecting_waits ev)"
  shows "requests_bounded (fst (get_socket_u ev cs p))"
proof -
  let ?p0 = "if pid p \<noteq> os_pid p then reset p else p"
  have b0: "requests_bounded ?p0" using assms(1) by (simp add: reset_def)
  show ?thesis
  proof (cases "closed ?p0")
    case True
    with b0 show ?thesis by (simp add: get_socket_u_def Let_def)
  next
    case False
    let ?p1 = "?p0\<lparr>operation_count := operation_count ?p0 + 1\<rparr>"
    let ?d = "if o_wait_queue_timeout (opts ?p1) \<noteq> None
                  \<and> the (o_wait_queue_timeout (opts ?p1)) \<noteq> 0
              then Some (clock ?p1 + the (o_wait_queue_timeout (opts ?p1))) else None"
    have b1: "requests_bounded ?p1" using b0 by (simp add: requests_bounded_def)
    obtain p2 o2 where s: "size_cond_block ?d (size_waits ev) ?p1 = (p2, o2)"
      by (cases "size_cond_block ?d (size_waits ev) ?p1")
    from size_cond_block_bounded [OF b1 assms(2), of ?d] s
    have b2: "requests_bounded p2" by simp
    let ?p3 = "p2\<lparr>active_sockets := active_sockets p2 + 1\<rparr>"
    have b3: "requests_bounded ?p3" using b2 by (simp add: requests_bounded_def)
    obtain p4 o4 em where l: "get_socket_loop ?d (connecting_waits ev) ev cs ?p3 = (p4, o4, em)"
      by (cases "get_socket_loop ?d (connecting_waits ev) ev cs ?p3") auto
    from get_socket_loop_bounded [OF b3 assms(3), of ?d ev cs] l
    have b4: "requests_bounded p4" by simp
    have r: "requests_bounded
       (fst (case o4 of
               Blocked \<Rightarrow> (p4, Blocked)
             | Raised e \<Rightarrow>
                 ((if error_is_Exception e then get_socket_except None True em p4 else p4),
                  Raised e)
             | Returned s \<Rightarrow>
                 (case check_auth (auth ev) cs s of
                    (s', es, Some e) \<Rightarrow>
                      ((if error_is_Exception e
                        then get_socket_except (Some s') True em (emit es p4)
                        else emit es p4),
                       Raised e)
                  | (s', es, None) \<Rightarrow> (emit es p4, Returned s'))))"
      using b4
      by (cases o4) (auto simp: get_socket_except_bounded split: prod.split option.split)
    show ?thesis
    proof (cases o2)
      case (Returned u)
      with False s l r show ?thesis
        by (simp add: get_socket_u_def Let_def)
    next
      case (Raised e)
      with False s b2 show ?thesis by (simp add: get_socket_u_def Let_def)
    next
      case Blocked
      with False s b2 show ?thesis by (simp add: get_socket_u_def Let_def)
    qed
  qed
qed

lemma return_socket_bounded:
  assumes "requests_bounded p"
  shows "requests_bounded (fst (return_socket s p))"
proof -
  let ?p1 = "publish (ConnectionCheckedInEvent (si_id s)) p"
  let ?r = "if pid ?p1 \<noteq> os_pid ?p1 then (reset ?p1, s)
             else if closed ?p1 then pool_close_socket POOL_CLOSED s ?p1
             else if \<not> si_closed s then
               (if si_generation s \<noteq> generation ?p1 then pool_close_socket STALE s ?p1
                else (let s' = update_is_writable (is_writable ?p1)
                                 (update_last_checkin_time ?p1 s)
                      in (emit [Notify max_connecting_cond]
                            (?p1\<lparr>sockets := s' # sockets ?p1\<rparr>), s')))
             else (?p1, s)"
  define q where "q = fst ?r"
  have b1: "requests_bounded ?p1" using assms by simp
  then have "requests_bounded (?p1\<lparr>sockets := xs\<rparr>)" for xs
    by (simp add: requests_bounded_def)
  with b1 have bq: "requests_bounded q"
    by (simp add: q_def reset_def Let_def)
  have e: "fst (return_socket s p) =
     emit [Notify size_cond]
       (q\<lparr>requests := requests q - 1, active_sockets := active_sockets q - 1,
          operation_count := operation_count q - 1\<rparr>)"
    by (simp add: return_socket_def q_def Let_def case_prod_beta)
  from bq show ?thesis
    unfolding e by (auto simp: requests_bounded_def emit_def)
qed
lemma maintain_admit_bounded:
  "requests_bounded p \<Longrightarrow> min_below_max p \<Longrightarrow>
   requests_bounded (fst (maintain_admit p)) \<and> min_below_max (fst (maintain_admit p))"
  by (auto simp: maintain_admit_def requests_bounded_def min_below_max_def)

lemma maintain_finally_bounded:
  "requests_bounded p \<Longrightarrow> requests_bounded (maintain_finally b p)"
  by (auto simp: maintain_finally_def requests_bounded_def emit_def Let_def)

lemma min_below_max_maintain_finally [simp]:
  "min_below_max (maintain_finally b p) = min_below_max p"
  by (simp add: maintain_finally_def min_below_max_def emit_def Let_def)

lemma min_below_max_frame: "frame p q \<Longrightarrow> min_below_max q = min_below_max p"
  by (simp add: frame_def min_below_max_def)

lemma maintain_try_bounded:
  assumes "requests_bounded p"
  shows "requests_bounded (fst (maintain_try g ev cs p))
         \<and> min_below_max (fst (maintain_try g ev cs p)) = min_below_max p"
proof (cases "pending p \<ge> max_connecting p")
  case True
  with assms show ?thesis by (simp add: maintain_try_def maintain_finally_bounded)
next
  case False
  let ?q = "p\<lparr>pending := pending p + 1\<rparr>"
  obtain p1 r where c: "connect ev cs ?q = (p1, r)" by (cases "connect ev cs ?q")
  have f: "frame ?q p1" using frame_connect [of ?q ev cs] c by simp
  have bq: "requests_bounded ?q" using assms by (simp add: requests_bounded_def)
  with requests_bounded_frame [OF f] have b1: "requests_bounded p1" by simp
  have m1: "min_below_max p1 = min_below_max p"
    using min_below_max_frame [OF f] by (simp add: min_below_max_def)
  have b2: "requests_bounded (p1\<lparr>sockets := xs\<rparr>)" for xs
    using b1 by (simp add: requests_bounded_def)
  have m2: "min_below_max (p1\<lparr>sockets := xs\<rparr>) = min_below_max p" for xs
    using m1 by (simp add: min_below_max_def)
  have m3: "min_below_max (fst (pool_close_socket STALE s p1)) = min_below_max p" for s
    using m1 by (simp add: pool_close_socket_def min_below_max_def emit_def split: prod.split)
  from False c b1 b2 m1 m2 m3 show ?thesis
    by (cases r) (simp_all add: maintain_try_def maintain_finally_bounded)
qed

lemma prune_idle_kept:
  "requests_bounded (prune_idle p) = requests_bounded p
   \<and> min_below_max (prune_idle p) = min_below_max p"
proof (induction p rule: prune_idle.induct)
  case (1 p)
  let ?c = "sockets p \<noteq> []
            \<and> idle_time_seconds (last (sockets p)) p > the (o_max_idle_time_seconds (opts p))"
  let ?q = "fst (pool_close_socket IDLE (last (sockets p))
                   (p\<lparr>sockets := butlast (sockets p)\<rparr>))"
  show ?case
  proof (cases ?c)
    case False
    then have "prune_idle p = p" by (subst prune_idle.simps) auto
    then show ?thesis by simp
  next
    case True
    have q: "requests_bounded ?q = requests_bounded p" "min_below_max ?q = min_below_max p"
      by (simp_all add: requests_bounded_def min_below_max_def pool_close_socket_def emit_def
            split: prod.split)
    from True have "prune_idle p = prune_idle ?q" by (subst prune_idle.simps) auto
    with "1.IH" [OF True] q show ?thesis by simp
  qed
qed

lemma maintain_loop_bounded:
  "requests_bounded p \<Longrightarrow> min_below_max p \<Longrightarrow>
   requests_bounded (fst (maintain_loop g envs cs p))"
proof (induction g envs cs p rule: maintain_loop.induct)
  case (1 g envs cs p)
  obtain p1 go where a: "maintain_admit p = (p1, go)" by (cases "maintain_admit p")
  from maintain_admit_bounded [OF "1.prems"] a
  have b1: "requests_bounded p1" and m1: "min_below_max p1" by simp_all
  show ?case
  proof (cases go)
    case False
    with a b1 show ?thesis by (subst maintain_loop.simps) simp
  next
    case True
    obtain p2 r where t: "maintain_try g (envs (next_connection_id p1)) cs p1 = (p2, r)"
      by (cases "maintain_try g (envs (next_connection_id p1)) cs p1")
    from maintain_try_bounded [OF b1, of g "envs (next_connection_id p1)" cs] t m1
    have b2: "requests_bounded p2" and m2: "min_below_max p2" by simp_all
    show ?thesis
    proof (cases r)
      case (Some x)
      with a True t b2 show ?thesis by (subst maintain_loop.simps) simp
    next
      case None
      have "requests_bounded (fst (maintain_loop g envs cs p2))"
        by (rule "1.IH" [OF a [symmetric] eqTrueI [OF True] t [unfolded None, symmetric] refl b2 m2])
      with a True t None show ?thesis by (subst maintain_loop.simps) simp
    qed
  qed
qed

lemma remove_stale_sockets_bounded:
  "requests_bounded p \<Longrightarrow> min_below_max p \<Longrightarrow>
   requests_bounded (fst (remove_stale_sockets g envs cs p))"
  by (simp add: remove_stale_sockets_def maintain_loop_bounded prune_idle_kept)
text \<open>
  C4, amended. Whenever \<^verbatim>\<open>max_pool_size\<close> is finite, \<^verbatim>\<open>requests\<close>, the count of
  the places given out to checkouts and to maintenance, is at most \<^verbatim>\<open>max_pool_size\<close>:
  the bound holds for a new pool (whose \<^verbatim>\<open>max_pool_size\<close> is not negative) and is
  kept by the first portion of the wait queue, by the whole of \<^verbatim>\<open>_get_socket\<close>, by
  \<^verbatim>\<open>return_socket\<close>, by \<^verbatim>\<open>reset\<close>, \<^verbatim>\<open>close\<close> and \<^verbatim>\<open>ready\<close>, and, when
  \<^verbatim>\<open>min_pool_size\<close> is at most \<^verbatim>\<open>max_pool_size\<close>, by the first block of the
  maintenance loop and by the whole of \<^verbatim>\<open>remove_stale_sockets\<close>; where a thread
  waits, the other threads are taken to keep the bound. (The sum of
  \<^verbatim>\<open>active_sockets\<close> and \<^verbatim>\<open>_pending\<close> is not bounded by \<^verbatim>\<open>max_pool_size\<close>.)
\<close>

theorem requests_bounded_kept:
  "((o_max_pool_size options = None \<or> 0 \<le> the (o_max_pool_size options)) \<longrightarrow>
      requests_bounded (Pool_init options hs now cur_pid))
   \<and> (requests_bounded p \<longrightarrow>
        (others_keep ws \<longrightarrow> requests_bounded (fst (size_cond_block d ws p)))
        \<and> (others_keep (size_waits ev) \<and> others_keep (connecting_waits ev) \<longrightarrow>
             requests_bounded (fst (get_socket_u ev cs p)))
        \<and> requests_bounded (fst (return_socket s p))
        \<and> requests_bounded (reset p) \<and> requests_bounded (close p)
        \<and> requests_bounded (ready p)
        \<and> (min_below_max p \<longrightarrow>
             requests_bounded (fst (maintain_admit p))
             \<and> requests_bounded (fst (remove_stale_sockets g envs cs p))))"
proof -
  have i: "(o_max_pool_size options = None \<or> 0 \<le> the (o_max_pool_size options)) \<longrightarrow>
             requests_bounded (Pool_init options hs now cur_pid)"
    by (simp add: requests_bounded_def Pool_init_def Let_def)
  have r: "requests_bounded (ready p) = requests_bounded p"
    by (simp add: ready_def Let_def requests_bounded_def publish_def emit_def)
  from i r show ?thesis
    by (simp add: size_cond_block_bounded get_socket_u_bounded return_socket_bounded
          reset_def close_def maintain_admit_bounded remove_stale_sockets_bounded)
qed

theorem requests_bounded_kept_witness:
  "requests_bounded ready_pool \<and> min_below_max ready_pool
   \<and> others_keep [late_release_wait]
   \<and> requests_bounded (fst (size_cond_block (Some 5) [late_release_wait] ready_pool))
   \<and> requests_bounded
        (fst (get_socket_u (example_env\<lparr>size_waits := [late_release_wait]\<rparr>) [] ready_pool))
   \<and> requests_bounded (fst (return_socket example_sock ready_pool))
   \<and> requests_bounded (fst (maintain_admit ready_pool))
   \<and> requests_bounded (fst (remove_stale_sockets 0 (\<lambda>n. example_env) [] ready_pool))
   \<and> requests_bounded (Pool_init example_options True 0 7)"
proof -
  have a: "requests_bounded ready_pool"
    by (simp add: requests_bounded_def example_defs)
  have b: "min_below_max ready_pool"
    by (simp add: min_below_max_def example_defs)
  have c: "others_keep [late_release_wait]"
    by (auto simp: others_keep_def late_release_wait_def requests_bounded_def)
  have d: "others_keep (size_waits (example_env\<lparr>size_waits := [late_release_wait]\<rparr>))"
    "others_keep (connecting_waits (example_env\<lparr>size_waits := [late_release_wait]\<rparr>))"
    using c by (simp_all add: example_env_def others_keep_def)
  have e: "o_max_pool_size example_options = None \<or> 0 \<le> the (o_max_pool_size example_options)"
    by (simp add: example_options_def)
  from requests_bounded_kept
         [of example_options True 0 7 ready_pool "[late_release_wait]" "Some 5"
             "example_env\<lparr>size_waits := [late_release_wait]\<rparr>" "[]" example_sock
             0 "\<lambda>n. example_env"]
       a b c d e
  show ?thesis by blast
qed

end
